(* ===== verification/Prelude.thy ===== *)
theory Prelude
  imports Complex_Main
begin

text \<open>
  Shared vocabulary of the model of \<^verbatim>\<open>src/script.js\<close>: the types that name the program's
  data (folders, file names, the image manifest), the few JavaScript idioms the class uses
  over and over (\<^verbatim>\<open>Math.floor(Math.random() * n)\<close>, reading an array index that may
  be out of range, interpolating a possibly \<^verbatim>\<open>undefined\<close> value into a template string,
  assigning it to \<^verbatim>\<open>textContent\<close>, \<^verbatim>\<open>response.ok\<close>), and the lemmas about them
  that every component proof uses.

  \<^verbatim>\<open>Math.random()\<close> is modelled as an input: a real number \<open>r\<close> with
  \<open>0 \<le> r < 1\<close>, the contract of the ECMAScript function. The index
  \<^verbatim>\<open>Math.floor(r * n)\<close> is computed exactly on reals; the floating-point product
  cannot round up to \<open>n\<close> when \<open>r < 1\<close>, so the exact model loses nothing.
\<close>

named_theorems js_simps "evaluation rules of the JavaScript helpers"
named_theorems app_simps "unfolding rules of the operations of the ImageGenerator model"

type_synonym folder = string
type_synonym filename = string
type_synonym manifest = "folder \<rightharpoonup> filename list"

text \<open>A value of \<^verbatim>\<open>Math.random()\<close>: the half-open unit interval.\<close>

definition js_random :: "real \<Rightarrow> bool" where
  "js_random r \<longleftrightarrow> 0 \<le> r \<and> r < 1"

text \<open>\<^verbatim>\<open>Math.floor(r * n)\<close> for a non-negative \<open>r\<close>, as an array index.\<close>

definition js_floor_index :: "real \<Rightarrow> nat \<Rightarrow> nat" where
  "js_floor_index r n = nat \<lfloor>r * real n\<rfloor>"

text \<open>\<^verbatim>\<open>xs[i]\<close>: the element, or \<^verbatim>\<open>undefined\<close> (\<open>None\<close>) past the end.\<close>

fun js_get :: "'a list \<Rightarrow> nat \<Rightarrow> 'a option" where
  "js_get [] i = None"
| "js_get (x # xs) 0 = Some x"
| "js_get (x # xs) (Suc i) = js_get xs i"

text \<open>\<^verbatim>\<open>`${v}`\<close>: a string, or the text \<^verbatim>\<open>undefined\<close>.\<close>

definition js_str :: "string option \<Rightarrow> string" where
  "js_str v = (case v of None \<Rightarrow> ''undefined'' | Some s \<Rightarrow> s)"

text \<open>
  \<^verbatim>\<open>el.textContent = v\<close>: the attribute is a nullable DOMString, so \<^verbatim>\<open>undefined\<close>
  clears the element.
\<close>

definition js_text :: "string option \<Rightarrow> string" where
  "js_text v = (case v of None \<Rightarrow> [] | Some s \<Rightarrow> s)"

text \<open>\<^verbatim>\<open>response.ok\<close>: the status is in the range 200--299.\<close>

definition http_ok :: "int \<Rightarrow> bool" where
  "http_ok status \<longleftrightarrow> 200 \<le> status \<and> status \<le> 299"

declare js_str_def [js_simps] js_text_def [js_simps] http_ok_def [js_simps]
  js_random_def [js_simps]

subsection \<open>The random index\<close>

lemma js_floor_index_eq_iff:
  assumes "0 \<le> r"
  shows "js_floor_index r n = i \<longleftrightarrow> real i \<le> r * real n \<and> r * real n < real i + 1"
proof -
  have "0 \<le> r * real n" using assms by simp
  then have "js_floor_index r n = i \<longleftrightarrow> \<lfloor>r * real n\<rfloor> = int i"
    unfolding js_floor_index_def by (auto simp: nat_eq_iff)
  also have "\<dots> \<longleftrightarrow> real i \<le> r * real n \<and> r * real n < real i + 1"
    by (simp add: floor_eq_iff)
  finally show ?thesis .
qed

lemma js_floor_index_less:
  assumes "js_random r" and "0 < n"
  shows "js_floor_index r n < n"
proof -
  from assms have "r * real n < real n" and "0 \<le> r" by (simp_all add: js_random_def)
  then show ?thesis unfolding js_floor_index_def
    by (simp add: nat_less_iff floor_less_iff)
qed

text \<open>
  The inputs that select index \<open>i\<close> form the interval \<open>[i/n, (i+1)/n)\<close>: every index
  has the same share \<open>1/n\<close> of the unit interval, so the choice is uniform.
\<close>

lemma js_floor_index_one [simp]:
  assumes "js_random r"
  shows "js_floor_index r 1 = 0" and "js_floor_index r (Suc 0) = 0"
  using js_floor_index_less [OF assms, of 1] by simp_all

lemma js_floor_index_interval:
  assumes "0 < n" and "0 \<le> r"
  shows "js_floor_index r n = i \<longleftrightarrow> real i / real n \<le> r \<and> r < real (Suc i) / real n"
  using assms by (simp add: js_floor_index_eq_iff pos_divide_le_eq pos_less_divide_eq add.commute)

lemma js_floor_index_hits:
  assumes "i < n"
  shows "js_random (real i / real n) \<and> js_floor_index (real i / real n) n = i"
proof -
  from assms have n: "0 < n" by simp
  have "real i / real n < real (Suc i) / real n"
    using n by (simp add: divide_strict_right_mono)
  moreover have "real i / real n < 1" using assms by simp
  ultimately show ?thesis using n by (simp add: js_random_def js_floor_index_interval)
qed

subsection \<open>Array reads\<close>

lemma js_get_eq_nth [js_simps]: "js_get xs i = (if i < length xs then Some (xs ! i) else None)"
  by (induction xs i rule: js_get.induct) auto

lemma js_get_in_set:
  assumes "js_get xs i = Some x"
  shows "x \<in> set xs"
  using assms by (auto simp: js_get_eq_nth split: if_splits)

lemma js_get_random:
  assumes "js_random r" and "xs \<noteq> []"
  shows "js_get xs (js_floor_index r (length xs)) = Some (xs ! js_floor_index r (length xs))"
  using assms js_floor_index_less [of r "length xs"] by (simp add: js_get_eq_nth)

subsection \<open>Lists of flagged entries\<close>

lemma map_fst_filter_snd [simp]:
  "map fst (filter snd (map (\<lambda>x. (x, P x)) xs)) = filter P xs"
  by (induction xs) auto

lemma filter_eq_distinct:
  assumes "distinct xs" and "x \<in> set xs"
  shows "filter (\<lambda>y. y = x) xs = [x]"
  using assms by (induction xs) (auto simp: filter_empty_conv)

end
