(* ===== verification/Dom.thy ===== *)
theory Dom
  imports Prelude
begin

text \<open>
  The part of the page that \<^verbatim>\<open>src/script.js\<close> writes: the placeholder box
  (\<^verbatim>\<open>#image-placeholder\<close>), the image element (\<^verbatim>\<open>#random-image\<close>) with its
  \<^verbatim>\<open>src\<close>, \<^verbatim>\<open>alt\<close> and its \<^verbatim>\<open>onload\<close>/\<^verbatim>\<open>onerror\<close> handler properties, the
  caption and source lines, and the folder buttons with their \<^verbatim>\<open>active\<close> class.
  The methods that only write the page are here: \<^verbatim>\<open>displayError\<close>,
  \<^verbatim>\<open>displayCaption\<close>, \<^verbatim>\<open>updateFolderButtons\<close> and the first half of
  \<^verbatim>\<open>displayImage\<close>. A handler property is recorded by the image path its closure
  captured: that is all that distinguishes two handlers the code installs.
\<close>

datatype placeholder_view =
    Placeholder_Initial
  | Placeholder_Loading
  | Placeholder_Error string

record dom =
  placeholder :: placeholder_view
  placeholder_hidden :: bool
  img_hidden :: bool
  img_src :: "string option"
  img_alt :: "string option"
  img_onload :: "string option"
  img_onerror :: "string option"
  caption_text :: string
  source_text :: string
  folder_buttons :: "(folder \<times> bool) list"

text \<open>\<^verbatim>\<open>displayError(message)\<close>.\<close>

definition displayError :: "string \<Rightarrow> dom \<Rightarrow> dom" where
  "displayError message d =
     d\<lparr>placeholder := Placeholder_Error message, placeholder_hidden := False,
       img_hidden := True, caption_text := ''Error loading content''\<rparr>"

text \<open>\<^verbatim>\<open>displayCaption(caption)\<close>; the folder is \<^verbatim>\<open>this.currentFolder\<close>.\<close>

definition displayCaption :: "string option \<Rightarrow> folder \<Rightarrow> dom \<Rightarrow> dom" where
  "displayCaption caption current d =
     d\<lparr>caption_text := js_text caption, source_text := ''Source: '' @ current @ '' folder''\<rparr>"

text \<open>\<^verbatim>\<open>updateFolderButtons()\<close>: every button loses \<^verbatim>\<open>active\<close>, the current one gets it.\<close>

definition updateFolderButtons :: "folder \<Rightarrow> dom \<Rightarrow> dom" where
  "updateFolderButtons current d =
     d\<lparr>folder_buttons := map (\<lambda>(f, _). (f, f = current)) (folder_buttons d)\<rparr>"

text \<open>The loading view that \<^verbatim>\<open>displayImage\<close> shows before it probes the image.\<close>

definition show_loading :: "dom \<Rightarrow> dom" where
  "show_loading d = d\<lparr>placeholder := Placeholder_Loading, placeholder_hidden := False,
     img_hidden := True\<rparr>"

definition button_folders :: "dom \<Rightarrow> folder list" where
  "button_folders d = map fst (folder_buttons d)"

definition active_buttons :: "dom \<Rightarrow> folder list" where
  "active_buttons d = map fst (filter snd (folder_buttons d))"

lemmas dom_writes = displayError_def displayCaption_def show_loading_def

declare dom_writes [app_simps]

subsection \<open>The folder buttons\<close>

lemma button_folders_update [simp]:
  "button_folders (updateFolderButtons current d) = button_folders d"
  by (simp add: button_folders_def updateFolderButtons_def split_beta comp_def)

lemma active_buttons_update:
  "active_buttons (updateFolderButtons current d) = filter (\<lambda>f. f = current) (button_folders d)"
proof -
  have "map fst (filter snd (map (\<lambda>(f, _). (f, f = current)) bs))
      = filter (\<lambda>f. f = current) (map fst bs)" for bs
    by (induction bs) auto
  then show ?thesis by (simp add: active_buttons_def button_folders_def updateFolderButtons_def)
qed

lemma buttons_consistent_update:
  "folder_buttons (updateFolderButtons current d)
     = map (\<lambda>f. (f, f = current)) (button_folders d)"
  by (simp add: updateFolderButtons_def button_folders_def split_beta comp_def)

lemma updateFolderButtons_idem [simp]:
  "updateFolderButtons c (updateFolderButtons c d) = updateFolderButtons c d"
  by (simp add: updateFolderButtons_def split_beta comp_def)

text \<open>The page writes that do not touch the buttons.\<close>

lemma folder_buttons_page_writes [simp]:
  "folder_buttons (displayError m d) = folder_buttons d"
  "folder_buttons (displayCaption c f d) = folder_buttons d"
  "folder_buttons (show_loading d) = folder_buttons d"
  by (simp_all add: app_simps)

end
