(* ===== verification/Generator.thy ===== *)
theory Generator
  imports Dom
begin

text \<open>
  The \<^verbatim>\<open>ImageGenerator\<close> class of \<^verbatim>\<open>src/script.js\<close>: its three fields
  (\<open>generator\<close>), extended (\<open>app\<close>) with the page it writes and with the asynchronous
  work in flight: the probe images created by \<^verbatim>\<open>displayImage\<close> whose
  \<^verbatim>\<open>onload\<close>/\<^verbatim>\<open>onerror\<close> has not fired yet (each with a fresh number, in creation
  order), whether the image element is loading a \<^verbatim>\<open>src\<close>, whether
  \<^verbatim>\<open>setupEventListeners\<close> has wired the buttons, and whether its one-second timer is
  pending. The operations are the methods that act on the selection and the pick:
  \<^verbatim>\<open>selectFolder\<close>, \<^verbatim>\<open>generateRandomImage\<close>, \<^verbatim>\<open>displayImage\<close> and the four
  callbacks that \<^verbatim>\<open>displayImage\<close> installs. Each \<^verbatim>\<open>Math.random()\<close> is a
  parameter \<open>r\<close>, the value the call returned.
\<close>

record generator =
  currentFolder :: folder
  captions :: "string list"
  imageManifest :: manifest

record app = generator +
  dom :: dom
  probes :: "(nat \<times> string) list"
  next_probe :: nat
  img_loading :: bool
  wired :: bool
  timer_armed :: bool

text \<open>\<^verbatim>\<open>new ImageGenerator()\<close> up to the call of \<^verbatim>\<open>init()\<close>, on the page \<open>d\<close>.\<close>

definition new_app :: "dom \<Rightarrow> app" where
  "new_app d =
     \<lparr>currentFolder = ''Lilia'', captions = [], imageManifest = Map.empty,
      dom = d, probes = [], next_probe = 0, img_loading = False, wired = False,
      timer_armed = False\<rparr>"

text \<open>The candidates of \<^verbatim>\<open>selectFolder('random')\<close>.\<close>

definition random_folders :: "folder list" where
  "random_folders = [''Lilia'', ''Leylah'', ''Roxy'']"

definition selectFolder :: "string \<Rightarrow> real \<Rightarrow> app \<Rightarrow> app" where
  "selectFolder folder r s =
     (let s' = (if folder = ''random''
                then s\<lparr>currentFolder := random_folders ! js_floor_index r (length random_folders)\<rparr>
                else s\<lparr>currentFolder := folder\<rparr>)
      in s'\<lparr>dom := updateFolderButtons (currentFolder s') (dom s')\<rparr>)"

text \<open>
  \<^verbatim>\<open>displayImage(imagePath)\<close> up to \<^verbatim>\<open>testImg.src = imagePath\<close>: the loading view,
  and a new probe whose callbacks fire later.
\<close>

definition displayImage :: "string \<Rightarrow> app \<Rightarrow> app" where
  "displayImage imagePath s =
     s\<lparr>dom := show_loading (dom s),
       probes := probes s @ [(next_probe s, imagePath)],
       next_probe := Suc (next_probe s)\<rparr>"

definition no_images_message :: "folder \<Rightarrow> string" where
  "no_images_message f = ''No images in '' @ f @ '' folder''"

definition generateRandomImage :: "real \<Rightarrow> real \<Rightarrow> app \<Rightarrow> app" where
  "generateRandomImage r1 r2 s =
     (let current = currentFolder s;
          fail = s\<lparr>dom := displayError (no_images_message current) (dom s)\<rparr>
      in case imageManifest s current of
           None \<Rightarrow> fail
         | Some images \<Rightarrow>
             if images = [] then fail
             else
               let imageFile = js_get images (js_floor_index r1 (length images));
                   imagePath = current @ ''/'' @ js_str imageFile;
                   caption = js_get (captions s) (js_floor_index r2 (length (captions s)));
                   s' = displayImage imagePath s
               in s'\<lparr>dom := displayCaption caption (currentFolder s') (dom s')\<rparr>)"

text \<open>\<^verbatim>\<open>testImg.onload\<close>: the probe found the image; show it in the page's element.\<close>

definition probe_onload :: "string \<Rightarrow> app \<Rightarrow> app" where
  "probe_onload imagePath s =
     s\<lparr>dom := (dom s)\<lparr>img_src := Some imagePath,
                       img_alt := Some (''Image from '' @ currentFolder s),
                       img_onload := Some imagePath, img_onerror := Some imagePath\<rparr>,
       img_loading := True\<rparr>"

text \<open>\<^verbatim>\<open>testImg.onerror\<close>.\<close>

definition probe_onerror :: "string \<Rightarrow> app \<Rightarrow> app" where
  "probe_onerror imagePath s =
     s\<lparr>dom := displayError (''Image not found: '' @ imagePath) (dom s)\<rparr>"

text \<open>\<^verbatim>\<open>imgElement.onload\<close> and \<^verbatim>\<open>imgElement.onerror\<close>, whichever closure is installed.\<close>

definition img_onload_fire :: "app \<Rightarrow> app" where
  "img_onload_fire s =
     (case img_onload (dom s) of
        None \<Rightarrow> s
      | Some _ \<Rightarrow> s\<lparr>dom := (dom s)\<lparr>placeholder_hidden := True, img_hidden := False\<rparr>\<rparr>)"

definition img_onerror_fire :: "app \<Rightarrow> app" where
  "img_onerror_fire s =
     (case img_onerror (dom s) of
        None \<Rightarrow> s
      | Some imagePath \<Rightarrow> s\<lparr>dom := displayError (''Failed to display: '' @ imagePath) (dom s)\<rparr>)"

declare selectFolder_def [app_simps] displayImage_def [app_simps]
  generateRandomImage_def [app_simps] probe_onload_def [app_simps]
  probe_onerror_def [app_simps] img_onload_fire_def [app_simps]
  img_onerror_fire_def [app_simps] no_images_message_def [app_simps]

subsection \<open>The selector contract\<close>

text \<open>
  What a pick may produce, from the selector's contract: the error \<open>EmptyFolder\<close>
  exactly when the current folder has no entry or an empty one, and otherwise the path
  \<open>folder/file\<close> of one of its files together with one of the captions.
\<close>

datatype pick_error = EmptyFolder

definition pick_allowed :: "manifest \<Rightarrow> string list \<Rightarrow> folder \<Rightarrow> pick_error + string \<times> string \<Rightarrow> bool" where
  "pick_allowed m cs f out =
     (case out of
        Inl EmptyFolder \<Rightarrow> (case m f of None \<Rightarrow> True | Some images \<Rightarrow> images = [])
      | Inr (path, caption) \<Rightarrow>
          (case m f of
             None \<Rightarrow> False
           | Some images \<Rightarrow> (\<exists>file \<in> set images. path = f @ ''/'' @ file) \<and> caption \<in> set cs))"

text \<open>
  What a call of \<^verbatim>\<open>generateRandomImage\<close> visibly did: no new probe means the error
  branch; a new probe carries the image path, and the caption line shows the caption.
\<close>

definition pick_outcome :: "app \<Rightarrow> app \<Rightarrow> pick_error + string \<times> string" where
  "pick_outcome s t =
     (if probes t = probes s then Inl EmptyFolder
      else Inr (snd (last (probes t)), caption_text (dom t)))"

text \<open>A page and a loaded generator used by the witnesses: the data of the spec's example.\<close>

definition demo_page :: dom where
  "demo_page =
     \<lparr>placeholder = Placeholder_Initial, placeholder_hidden = False, img_hidden = True,
      img_src = None, img_alt = None, img_onload = None, img_onerror = None,
      caption_text = [], source_text = [],
      folder_buttons = [(''Lilia'', True), (''Leylah'', False), (''Roxy'', False),
                        (''random'', False)]\<rparr>"

definition demo_manifest :: manifest where
  "demo_manifest = [''Lilia'' \<mapsto> [''a.jpg'', ''b.jpg''], ''Leylah'' \<mapsto> [], ''Roxy'' \<mapsto> [''c.jpg'']]"

definition demo_app :: app where
  "demo_app = (new_app demo_page)\<lparr>captions := [''Hi''], imageManifest := demo_manifest,
                                  wired := True\<rparr>"

lemmas demo_defs = demo_page_def demo_manifest_def demo_app_def new_app_def

declare Let_def [app_simps]

subsection \<open>The two branches of a pick\<close>

lemma generate_fail_eq:
  assumes "imageManifest s (currentFolder s) = None \<or> imageManifest s (currentFolder s) = Some []"
  shows "generateRandomImage r1 r2 s
           = s\<lparr>dom := displayError (no_images_message (currentFolder s)) (dom s)\<rparr>"
  using assms unfolding generateRandomImage_def Let_def by auto

lemma generate_ok_eq:
  assumes "js_random r1" and "imageManifest s (currentFolder s) = Some images" and "images \<noteq> []"
  shows "generateRandomImage r1 r2 s
           = (let path = currentFolder s @ ''/'' @ images ! js_floor_index r1 (length images);
                  caption = js_get (captions s) (js_floor_index r2 (length (captions s)))
              in s\<lparr>dom := displayCaption caption (currentFolder s) (show_loading (dom s)),
                   probes := probes s @ [(next_probe s, path)],
                   next_probe := Suc (next_probe s)\<rparr>)"
  using assms js_get_random [OF assms(1,3)]
  by (simp add: generateRandomImage_def displayImage_def Let_def js_str_def)

lemma generate_fields [simp]:
  "currentFolder (generateRandomImage r1 r2 s) = currentFolder s"
  "captions (generateRandomImage r1 r2 s) = captions s"
  "imageManifest (generateRandomImage r1 r2 s) = imageManifest s"
  "wired (generateRandomImage r1 r2 s) = wired s"
  "timer_armed (generateRandomImage r1 r2 s) = timer_armed s"
  "img_loading (generateRandomImage r1 r2 s) = img_loading s"
  "folder_buttons (dom (generateRandomImage r1 r2 s)) = folder_buttons (dom s)"
  by (simp_all add: app_simps split: option.split)

lemma js_get_random_caption:
  assumes "js_random r" and "cs \<noteq> []"
  shows "js_text (js_get cs (js_floor_index r (length cs))) \<in> set cs"
  using js_get_random [OF assms] js_floor_index_less [OF assms(1)] assms(2)
  by (simp add: js_text_def)

lemma random_folders_index:
  assumes "js_random r"
  shows "js_floor_index r (length random_folders) < length random_folders"
  using js_floor_index_less [OF assms] by (simp add: random_folders_def)

lemma selectFolder_current:
  "currentFolder (selectFolder folder r s)
     = (if folder = ''random'' then random_folders ! js_floor_index r (length random_folders)
        else folder)"
  by (simp add: selectFolder_def Let_def)

subsection \<open>Properties of a pick\<close>

text \<open>
  C1. A pick from a folder with images, with captions loaded, starts loading the path
  \<open>folder/file\<close> of a file listed for the current folder, shows a loaded caption, and
  puts up the loading view.
\<close>

theorem generate_pick_in_manifest:
  assumes "js_random r1" and "js_random r2"
    and "imageManifest s (currentFolder s) = Some images" and "images \<noteq> []"
    and "captions s \<noteq> []"
  shows "\<exists>file \<in> set images. \<exists>caption \<in> set (captions s).
           probes (generateRandomImage r1 r2 s)
             = probes s @ [(next_probe s, currentFolder s @ ''/'' @ file)]
           \<and> caption_text (dom (generateRandomImage r1 r2 s)) = caption
           \<and> placeholder (dom (generateRandomImage r1 r2 s)) = Placeholder_Loading"
proof -
  let ?i = "js_floor_index r1 (length images)"
  have "?i < length images" using js_floor_index_less [OF assms(1)] assms(4) by simp
  then have "images ! ?i \<in> set images" by simp
  moreover have "js_text (js_get (captions s) (js_floor_index r2 (length (captions s))))
                   \<in> set (captions s)"
    using js_get_random_caption [OF assms(2,5)] .
  ultimately show ?thesis
    by (simp add: generate_ok_eq [OF assms(1,3,4)] dom_writes)
qed

text \<open>
  C2. A pick from a folder that is absent from the manifest or lists no image reports
  \<open>No images in <folder> folder\<close>, hides the image, and starts no probe.
\<close>

theorem generate_empty_folder_error:
  assumes "imageManifest s (currentFolder s) = None \<or> imageManifest s (currentFolder s) = Some []"
  shows "probes (generateRandomImage r1 r2 s) = probes s
         \<and> placeholder (dom (generateRandomImage r1 r2 s))
             = Placeholder_Error (''No images in '' @ currentFolder s @ '' folder'')
         \<and> img_hidden (dom (generateRandomImage r1 r2 s))
         \<and> caption_text (dom (generateRandomImage r1 r2 s)) = ''Error loading content''"
  by (simp add: generate_fail_eq [OF assms] dom_writes no_images_message_def)

text \<open>Witnesses of C1 and C2 on the spec's example data.\<close>

theorem generate_pick_in_manifest_witness:
  "js_random (1/2) \<and> js_random 0
   \<and> imageManifest demo_app (currentFolder demo_app) = Some [''a.jpg'', ''b.jpg'']
   \<and> [''a.jpg'', ''b.jpg''] \<noteq> [] \<and> captions demo_app \<noteq> []
   \<and> (\<exists>file \<in> set [''a.jpg'', ''b.jpg'']. \<exists>caption \<in> set (captions demo_app).
        probes (generateRandomImage (1/2) 0 demo_app)
          = probes demo_app @ [(next_probe demo_app, currentFolder demo_app @ ''/'' @ file)]
        \<and> caption_text (dom (generateRandomImage (1/2) 0 demo_app)) = caption
        \<and> placeholder (dom (generateRandomImage (1/2) 0 demo_app)) = Placeholder_Loading)"
proof -
  have h: "js_random (1/2)" "js_random 0"
    "imageManifest demo_app (currentFolder demo_app) = Some [''a.jpg'', ''b.jpg'']"
    "[''a.jpg'', ''b.jpg''] \<noteq> []" "captions demo_app \<noteq> []"
    by (simp_all add: js_random_def demo_defs)
  show ?thesis using h generate_pick_in_manifest [OF h] by blast
qed

theorem generate_empty_folder_error_witness:
  "(imageManifest (demo_app\<lparr>currentFolder := ''Leylah''\<rparr>) ''Leylah'' = None
    \<or> imageManifest (demo_app\<lparr>currentFolder := ''Leylah''\<rparr>) ''Leylah'' = Some [])
   \<and> probes (generateRandomImage 0 0 (demo_app\<lparr>currentFolder := ''Leylah''\<rparr>)) = []
   \<and> placeholder (dom (generateRandomImage 0 0 (demo_app\<lparr>currentFolder := ''Leylah''\<rparr>)))
       = Placeholder_Error ''No images in Leylah folder''"
proof -
  let ?s = "demo_app\<lparr>currentFolder := ''Leylah''\<rparr>"
  have h: "imageManifest ?s (currentFolder ?s) = None \<or> imageManifest ?s (currentFolder ?s) = Some []"
    by (simp add: demo_defs)
  show ?thesis using h generate_empty_folder_error [OF h, of 0 0] by (simp add: demo_defs)
qed

subsection \<open>Refinement of the selector contract\<close>

lemma pick_outcome_fail:
  assumes "imageManifest s (currentFolder s) = None \<or> imageManifest s (currentFolder s) = Some []"
  shows "pick_outcome s (generateRandomImage r1 r2 s) = Inl EmptyFolder"
  by (simp add: generate_fail_eq [OF assms] pick_outcome_def)

lemma pick_outcome_ok:
  assumes "js_random r1" and "imageManifest s (currentFolder s) = Some images" and "images \<noteq> []"
  shows "pick_outcome s (generateRandomImage r1 r2 s)
           = Inr (currentFolder s @ ''/'' @ images ! js_floor_index r1 (length images),
                  js_text (js_get (captions s) (js_floor_index r2 (length (captions s)))))"
  by (simp add: generate_ok_eq [OF assms] pick_outcome_def dom_writes)

text \<open>
  C3. \<^verbatim>\<open>generateRandomImage\<close> implements the selector's \<open>pick\<close> exactly: with captions
  loaded, an outcome is allowed by the contract if and only if some pair of
  \<^verbatim>\<open>Math.random()\<close> values makes the code produce it. Soundness (every outcome is
  allowed) and completeness (every image of the folder and every caption can come up).
\<close>

theorem generate_refines_pick:
  assumes "captions s \<noteq> []"
  shows "pick_allowed (imageManifest s) (captions s) (currentFolder s) out
         \<longleftrightarrow> (\<exists>r1 r2. js_random r1 \<and> js_random r2
                     \<and> pick_outcome s (generateRandomImage r1 r2 s) = out)"
proof
  assume allowed: "pick_allowed (imageManifest s) (captions s) (currentFolder s) out"
  show "\<exists>r1 r2. js_random r1 \<and> js_random r2 \<and> pick_outcome s (generateRandomImage r1 r2 s) = out"
  proof (cases out)
    case (Inl e)
    with allowed have "imageManifest s (currentFolder s) = None
        \<or> imageManifest s (currentFolder s) = Some []" and "out = Inl EmptyFolder"
      by (auto simp: pick_allowed_def split: option.splits pick_error.splits)
    then show ?thesis using pick_outcome_fail by (fastforce simp: js_random_def)
  next
    case (Inr pc)
    then obtain path caption where out: "out = Inr (path, caption)" by (cases pc) auto
    with allowed obtain images fname where m: "imageManifest s (currentFolder s) = Some images"
      and in_images: "fname \<in> set images" and path: "path = currentFolder s @ ''/'' @ fname"
      and caption: "caption \<in> set (captions s)"
      by (auto simp: pick_allowed_def split: option.splits)
    from in_images obtain i where i: "i < length images" "images ! i = fname"
      by (auto simp: in_set_conv_nth)
    from caption obtain j where j: "j < length (captions s)" "captions s ! j = caption"
      by (auto simp: in_set_conv_nth)
    note r1 = js_floor_index_hits [OF i(1)] and r2 = js_floor_index_hits [OF j(1)]
    have "images \<noteq> []" using in_images by auto
    then have "pick_outcome s (generateRandomImage (real i / real (length images))
                 (real j / real (length (captions s))) s) = out"
      using pick_outcome_ok [OF conjunct1 [OF r1] m] r1 r2 i j out path
      by (simp add: js_get_eq_nth js_text_def)
    then show ?thesis using r1 r2 by blast
  qed
next
  assume "\<exists>r1 r2. js_random r1 \<and> js_random r2 \<and> pick_outcome s (generateRandomImage r1 r2 s) = out"
  then obtain r1 r2 where r: "js_random r1" "js_random r2"
    and out: "pick_outcome s (generateRandomImage r1 r2 s) = out" by blast
  show "pick_allowed (imageManifest s) (captions s) (currentFolder s) out"
  proof (cases "imageManifest s (currentFolder s) = None \<or> imageManifest s (currentFolder s) = Some []")
    case True
    then show ?thesis using out pick_outcome_fail [OF True]
      by (auto simp: pick_allowed_def split: option.splits)
  next
    case False
    then obtain images where m: "imageManifest s (currentFolder s) = Some images"
      and ne: "images \<noteq> []" by auto
    have "images ! js_floor_index r1 (length images) \<in> set images"
      using js_floor_index_less [OF r(1)] ne by simp
    then show ?thesis
      using out pick_outcome_ok [OF r(1) m ne] js_get_random_caption [OF r(2) assms] m
      by (auto simp: pick_allowed_def)
  qed
qed

theorem generate_refines_pick_witness:
  "captions demo_app \<noteq> []
   \<and> pick_allowed (imageManifest demo_app) (captions demo_app) (currentFolder demo_app)
       (Inr (''Lilia/b.jpg'', ''Hi''))
   \<and> (\<exists>r1 r2. js_random r1 \<and> js_random r2
        \<and> pick_outcome demo_app (generateRandomImage r1 r2 demo_app) = Inr (''Lilia/b.jpg'', ''Hi''))"
proof -
  have h: "captions demo_app \<noteq> []" by (simp add: demo_defs)
  have a: "pick_allowed (imageManifest demo_app) (captions demo_app) (currentFolder demo_app)
             (Inr (''Lilia/b.jpg'', ''Hi''))"
    by (simp add: pick_allowed_def demo_defs)
  show ?thesis using h a generate_refines_pick [OF h] by blast
qed

subsection \<open>Folder selection\<close>

lemma length_random_folders [simp]: "length random_folders = 3"
  by (simp add: random_folders_def)

lemma distinct_random_folders: "distinct random_folders"
  by (simp add: random_folders_def)

text \<open>
  C4. \<^verbatim>\<open>selectFolder('random')\<close> is uniform over its three candidates: candidate
  \<open>k\<close> is chosen exactly when \<^verbatim>\<open>Math.random()\<close> falls in \<open>[k/3, (k+1)/3)\<close>, an
  interval of length one third.
\<close>

theorem select_random_uniform:
  assumes "js_random r" and "k < length random_folders"
  shows "currentFolder (selectFolder ''random'' r s) = random_folders ! k
         \<longleftrightarrow> real k / 3 \<le> r \<and> r < real (Suc k) / 3"
proof -
  have idx: "js_floor_index r 3 < length random_folders"
    using random_folders_index [OF assms(1)] by simp
  have "currentFolder (selectFolder ''random'' r s) = random_folders ! k
        \<longleftrightarrow> js_floor_index r 3 = k"
    using nth_eq_iff_index_eq [OF distinct_random_folders idx assms(2)]
    by (simp add: selectFolder_current)
  also have "\<dots> \<longleftrightarrow> real k / 3 \<le> r \<and> r < real (Suc k) / 3"
    using js_floor_index_interval [of 3 r k] assms(1) by (simp add: js_random_def)
  finally show ?thesis .
qed

theorem select_random_uniform_witness:
  "js_random (1/2) \<and> 1 < length random_folders
   \<and> (currentFolder (selectFolder ''random'' (1/2) demo_app) = random_folders ! 1
       \<longleftrightarrow> real (1::nat) / 3 \<le> 1/2 \<and> (1/2::real) < real (Suc 1) / 3)"
proof -
  have h: "js_random (1/2)" "1 < length random_folders" by (simp_all add: js_random_def)
  show ?thesis using h select_random_uniform [OF h, of demo_app] by blast
qed

text \<open>
  C5. \<^verbatim>\<open>selectFolder('random')\<close> always lands on one of \<^verbatim>\<open>Lilia\<close>,
  \<^verbatim>\<open>Leylah\<close>, \<^verbatim>\<open>Roxy\<close> (never on the sentinel itself), and afterwards the
  buttons marked active are exactly those of the chosen folder.
\<close>

theorem select_random_candidate:
  assumes "js_random r"
  shows "currentFolder (selectFolder ''random'' r s) \<in> set random_folders
         \<and> currentFolder (selectFolder ''random'' r s) \<noteq> ''random''
         \<and> active_buttons (dom (selectFolder ''random'' r s))
             = filter (\<lambda>f. f = currentFolder (selectFolder ''random'' r s)) (button_folders (dom s))"
proof -
  have "random_folders ! js_floor_index r 3 \<in> set random_folders"
    using random_folders_index [OF assms] by simp
  moreover have "''random'' \<notin> set random_folders" by (simp add: random_folders_def)
  ultimately show ?thesis
    by (auto simp: selectFolder_def active_buttons_update)
qed

theorem select_random_candidate_witness:
  "js_random (9/10)
   \<and> currentFolder (selectFolder ''random'' (9/10) demo_app) \<in> set random_folders
   \<and> currentFolder (selectFolder ''random'' (9/10) demo_app) = ''Roxy''"
proof -
  have h: "js_random (9/10)" by (simp add: js_random_def)
  have "currentFolder (selectFolder ''random'' (9/10) demo_app) = ''Roxy''"
    by (simp add: selectFolder_current random_folders_def js_floor_index_def)
  then show ?thesis using h select_random_candidate [OF h, of demo_app] by simp
qed

text \<open>
  C6. Selecting a named folder stores the name as given, with no check against the
  manifest, and selecting it again changes nothing: the operation is idempotent.
\<close>

theorem selectFolder_idempotent:
  assumes "folder \<noteq> ''random''"
  shows "currentFolder (selectFolder folder r s) = folder
         \<and> imageManifest (selectFolder folder r s) = imageManifest s
         \<and> selectFolder folder r' (selectFolder folder r s) = selectFolder folder r s"
  using assms by (simp add: selectFolder_def Let_def)

theorem selectFolder_idempotent_witness:
  "''Nobody'' \<noteq> ''random''
   \<and> currentFolder (selectFolder ''Nobody'' 0 demo_app) = ''Nobody''
   \<and> imageManifest (selectFolder ''Nobody'' 0 demo_app) ''Nobody'' = None
   \<and> selectFolder ''Nobody'' 0 (selectFolder ''Nobody'' 0 demo_app) = selectFolder ''Nobody'' 0 demo_app"
proof -
  have h: "''Nobody'' \<noteq> ''random''" by simp
  show ?thesis using h selectFolder_idempotent [OF h, of 0 demo_app 0] by (simp add: demo_defs)
qed

text \<open>
  C7. With an empty caption list, a pick still shows an image, but
  \<^verbatim>\<open>this.captions[0]\<close> is \<^verbatim>\<open>undefined\<close> and the caption line is cleared.
\<close>

theorem generate_caption_undefined:
  assumes "captions s = []" and "js_random r1"
    and "imageManifest s (currentFolder s) = Some images" and "images \<noteq> []"
  shows "caption_text (dom (generateRandomImage r1 r2 s)) = []
         \<and> length (probes (generateRandomImage r1 r2 s)) = Suc (length (probes s))"
  using assms by (simp add: generate_ok_eq [OF assms(2-4)] dom_writes js_text_def)

theorem generate_caption_undefined_witness:
  "captions (demo_app\<lparr>captions := []\<rparr>) = [] \<and> js_random 0
   \<and> imageManifest (demo_app\<lparr>captions := []\<rparr>) (currentFolder (demo_app\<lparr>captions := []\<rparr>))
       = Some [''a.jpg'', ''b.jpg''] \<and> [''a.jpg'', ''b.jpg''] \<noteq> []
   \<and> caption_text (dom (generateRandomImage 0 0 (demo_app\<lparr>captions := []\<rparr>))) = []"
proof -
  let ?s = "demo_app\<lparr>captions := []\<rparr>"
  have h: "captions ?s = []" "js_random 0"
    "imageManifest ?s (currentFolder ?s) = Some [''a.jpg'', ''b.jpg'']" "[''a.jpg'', ''b.jpg''] \<noteq> []"
    by (simp_all add: js_random_def demo_defs)
  show ?thesis using h generate_caption_undefined [OF h, of 0] by simp
qed

subsection \<open>Uniform and independent draws\<close>

lemma nth_floor_index_eq_iff:
  assumes "js_random r" and "distinct xs" and "i < length xs"
  shows "xs ! js_floor_index r (length xs) = xs ! i
         \<longleftrightarrow> real i / real (length xs) \<le> r \<and> r < real (Suc i) / real (length xs)"
proof -
  have n: "0 < length xs" using assms(3) by (cases xs) auto
  have "js_floor_index r (length xs) < length xs" by (rule js_floor_index_less [OF assms(1) n])
  then have "xs ! js_floor_index r (length xs) = xs ! i \<longleftrightarrow> js_floor_index r (length xs) = i"
    using nth_eq_iff_index_eq [OF assms(2) _ assms(3)] by blast
  also have "\<dots> \<longleftrightarrow> real i / real (length xs) \<le> r \<and> r < real (Suc i) / real (length xs)"
    using js_floor_index_interval [OF n] assms(1) by (simp add: js_random_def)
  finally show ?thesis .
qed

text \<open>
  C26. The two draws of a pick are uniform and independent: for a folder and a caption
  list without duplicates, the pick shows image \<open>i\<close> with caption \<open>j\<close> exactly when
  the first \<^verbatim>\<open>Math.random()\<close> lies in \<open>[i/n, (i+1)/n)\<close> and the second in
  \<open>[j/m, (j+1)/m)\<close>: a product of intervals of widths \<open>1/n\<close> and \<open>1/m\<close>.
\<close>

theorem pick_uniform_independent:
  assumes "js_random r1" and "js_random r2"
    and "imageManifest s (currentFolder s) = Some images" and "distinct images"
    and "distinct (captions s)" and "i < length images" and "j < length (captions s)"
  shows "pick_outcome s (generateRandomImage r1 r2 s)
           = Inr (currentFolder s @ ''/'' @ images ! i, captions s ! j)
         \<longleftrightarrow> (real i / real (length images) \<le> r1 \<and> r1 < real (Suc i) / real (length images))
             \<and> (real j / real (length (captions s)) \<le> r2
                \<and> r2 < real (Suc j) / real (length (captions s)))"
proof -
  have ne: "images \<noteq> []" and nec: "captions s \<noteq> []" using assms(6,7) by auto
  have cap: "js_text (js_get (captions s) (js_floor_index r2 (length (captions s))))
               = captions s ! js_floor_index r2 (length (captions s))"
    using js_get_random [OF assms(2) nec] by (simp add: js_text_def)
  show ?thesis
    using nth_floor_index_eq_iff [OF assms(1,4,6)] nth_floor_index_eq_iff [OF assms(2,5,7)]
    by (simp add: pick_outcome_ok [OF assms(1,3) ne] cap)
qed

theorem pick_uniform_independent_witness:
  "js_random (3/4) \<and> js_random 0
   \<and> imageManifest demo_app (currentFolder demo_app) = Some [''a.jpg'', ''b.jpg'']
   \<and> distinct [''a.jpg'', ''b.jpg''] \<and> distinct (captions demo_app)
   \<and> 1 < length [''a.jpg'', ''b.jpg''] \<and> 0 < length (captions demo_app)
   \<and> pick_outcome demo_app (generateRandomImage (3/4) 0 demo_app)
       = Inr (currentFolder demo_app @ ''/'' @ [''a.jpg'', ''b.jpg''] ! 1, captions demo_app ! 0)"
proof -
  have h: "js_random (3/4)" "js_random 0"
    "imageManifest demo_app (currentFolder demo_app) = Some [''a.jpg'', ''b.jpg'']"
    "distinct [''a.jpg'', ''b.jpg'']" "distinct (captions demo_app)"
    "1 < length [''a.jpg'', ''b.jpg'']" "0 < length (captions demo_app)"
    by (simp_all add: js_random_def demo_defs)
  have "real 1 / real (length [''a.jpg'', ''b.jpg'']) \<le> (3/4::real)
        \<and> (3/4::real) < real (Suc 1) / real (length [''a.jpg'', ''b.jpg''])
        \<and> real 0 / real (length (captions demo_app)) \<le> (0::real)
        \<and> (0::real) < real (Suc 0) / real (length (captions demo_app))"
    by (simp add: demo_defs)
  then show ?thesis using h pick_uniform_independent [OF h] by blast
qed

end
