(* ===== verification/Loader.thy ===== *)
theory Loader
  imports Generator
begin

text \<open>
  Start-up of \<^verbatim>\<open>src/script.js\<close>: \<^verbatim>\<open>init\<close> with \<^verbatim>\<open>loadManifest\<close>,
  \<^verbatim>\<open>loadCaptions\<close> and \<^verbatim>\<open>setupEventListeners\<close>, and the
  \<^verbatim>\<open>DOMContentLoaded\<close> handler that constructs the generator. A \<^verbatim>\<open>fetch\<close> is an
  input: it rejects (\<open>NetworkError\<close>) or yields a response with a status and the result
  of \<^verbatim>\<open>response.json()\<close>, \<open>None\<close> when the body is not JSON. For the caption file the
  parsed value is \<^verbatim>\<open>data.captions\<close>, \<open>None\<close> when it is missing. Each exception the
  code throws is a branch: \<^verbatim>\<open>loadManifest\<close> returns its error as \<open>Inl\<close>, and
  \<^verbatim>\<open>init\<close>'s \<^verbatim>\<open>catch\<close> turns it into the error view. Between the awaits of
  \<^verbatim>\<open>init\<close> no listener is wired yet, so no event of the page can interleave with them,
  and \<^verbatim>\<open>init\<close> is one function from its two fetch results.
\<close>

datatype 'a fetch_result =
    NetworkError
  | Response int "'a option"

type_synonym captions_json = "string list option"

datatype load_error = FetchFailed | HttpError int | JsonError

definition loadManifest :: "manifest fetch_result \<Rightarrow> app \<Rightarrow> load_error + app" where
  "loadManifest response s =
     (case response of
        NetworkError \<Rightarrow> Inl FetchFailed
      | Response status body \<Rightarrow>
          if \<not> http_ok status then Inl (HttpError status)
          else (case body of
                  None \<Rightarrow> Inl JsonError
                | Some data \<Rightarrow> Inr (s\<lparr>imageManifest := data\<rparr>)))"

definition fallback_captions :: "string list" where
  "fallback_captions =
     [''A beautiful moment captured.'', ''Memories that will last forever.'',
      ''Pure happiness in a frame.'', ''A snapshot of joy.'', ''Time stands still here.'']"

text \<open>
  \<^verbatim>\<open>loadCaptions\<close>: every failure (rejected fetch, status not ok, body not JSON, no
  \<^verbatim>\<open>captions\<close> field, whose \<^verbatim>\<open>.length\<close> then throws) ends in the \<^verbatim>\<open>catch\<close>
  that installs the fallback list.
\<close>

definition loadCaptions :: "captions_json fetch_result \<Rightarrow> app \<Rightarrow> app" where
  "loadCaptions response s =
     (let fallback = s\<lparr>captions := fallback_captions\<rparr>
      in case response of
           NetworkError \<Rightarrow> fallback
         | Response status body \<Rightarrow>
             if http_ok status
             then (case body of
                     None \<Rightarrow> fallback
                   | Some None \<Rightarrow> fallback
                   | Some (Some cs) \<Rightarrow> s\<lparr>captions := cs\<rparr>)
             else fallback)"

text \<open>\<^verbatim>\<open>setupEventListeners\<close>: the buttons are wired and the first pick is scheduled.\<close>

definition setupEventListeners :: "app \<Rightarrow> app" where
  "setupEventListeners s = s\<lparr>wired := True, timer_armed := True\<rparr>"

definition init_failed_message :: string where
  "init_failed_message = ''Failed to initialize. Check console.''"

text \<open>
  \<^verbatim>\<open>init\<close>. After the listeners are wired and the buttons updated, the success log
  reads \<^verbatim>\<open>this.imageManifest.Lilia.length\<close> and \<^verbatim>\<open>.Leylah.length\<close>: a manifest
  without either key throws a \<^verbatim>\<open>TypeError\<close> there, which the same \<^verbatim>\<open>catch\<close>
  reports, although the listeners and the timer are already in place.
\<close>

definition init :: "manifest fetch_result \<Rightarrow> captions_json fetch_result \<Rightarrow> app \<Rightarrow> app" where
  "init manifest_response captions_response s =
     (case loadManifest manifest_response s of
        Inl _ \<Rightarrow> s\<lparr>dom := displayError init_failed_message (dom s)\<rparr>
      | Inr s1 \<Rightarrow>
          let s2 = setupEventListeners (loadCaptions captions_response s1);
              s3 = s2\<lparr>dom := updateFolderButtons (currentFolder s2) (dom s2)\<rparr>
          in if imageManifest s3 ''Lilia'' = None \<or> imageManifest s3 ''Leylah'' = None
             then s3\<lparr>dom := displayError init_failed_message (dom s3)\<rparr>
             else s3)"

text \<open>\<^verbatim>\<open>document.addEventListener('DOMContentLoaded', ...)\<close>: construct and initialise.\<close>

definition page_load :: "dom \<Rightarrow> manifest fetch_result \<Rightarrow> captions_json fetch_result \<Rightarrow> app" where
  "page_load d manifest_response captions_response =
     init manifest_response captions_response (new_app d)"

declare loadManifest_def [app_simps] loadCaptions_def [app_simps]
  setupEventListeners_def [app_simps] init_def [app_simps] page_load_def [app_simps]

subsection \<open>Loading the data\<close>

lemma loadManifest_Inr:
  "loadManifest response s = Inr t
   \<longleftrightarrow> (\<exists>status m. response = Response status (Some m) \<and> http_ok status
          \<and> t = s\<lparr>imageManifest := m\<rparr>)"
  by (auto simp: loadManifest_def split: fetch_result.splits option.splits)

lemma loadCaptions_fields [simp]:
  "currentFolder (loadCaptions r s) = currentFolder s"
  "imageManifest (loadCaptions r s) = imageManifest s"
  "dom (loadCaptions r s) = dom s"
  "wired (loadCaptions r s) = wired s"
  "timer_armed (loadCaptions r s) = timer_armed s"
  "probes (loadCaptions r s) = probes s"
  "img_loading (loadCaptions r s) = img_loading s"
  "next_probe (loadCaptions r s) = next_probe s"
  by (simp_all add: loadCaptions_def Let_def split: fetch_result.split option.split)

lemma loadCaptions_cases:
  "captions (loadCaptions response s)
     = (case response of
          Response status (Some (Some cs)) \<Rightarrow> if http_ok status then cs else fallback_captions
        | _ \<Rightarrow> fallback_captions)"
  by (simp add: loadCaptions_def Let_def split: fetch_result.split option.split)

lemma init_fail_eq:
  assumes "loadManifest manifest_response s = Inl e"
  shows "init manifest_response captions_response s
           = s\<lparr>dom := displayError init_failed_message (dom s)\<rparr>"
  using assms by (simp add: init_def)

lemma init_ok_eq:
  assumes "loadManifest manifest_response s = Inr s1"
  shows "init manifest_response captions_response s
           = (let s3 = (setupEventListeners (loadCaptions captions_response s1))
                         \<lparr>dom := updateFolderButtons (currentFolder s1) (dom s1)\<rparr>
              in if imageManifest s1 ''Lilia'' = None \<or> imageManifest s1 ''Leylah'' = None
                 then s3\<lparr>dom := displayError init_failed_message (dom s3)\<rparr>
                 else s3)"
  using assms by (simp add: init_def setupEventListeners_def Let_def)

lemma init_wired:
  assumes "\<not> wired s"
  shows "wired (init manifest_response captions_response s)
           \<longleftrightarrow> (\<exists>t. loadManifest manifest_response s = Inr t)"
  using assms by (auto simp: init_def setupEventListeners_def Let_def split: sum.split)

lemma init_frame [simp]:
  "probes (init manifest_response captions_response s) = probes s"
  "img_loading (init manifest_response captions_response s) = img_loading s"
  "next_probe (init manifest_response captions_response s) = next_probe s"
  by (auto simp: init_def Let_def setupEventListeners_def loadManifest_def
      split: sum.split fetch_result.split option.split)

lemma http_ok_200 [simp]: "http_ok 200"
  by (simp add: http_ok_def)

subsection \<open>Properties of start-up\<close>

text \<open>
  C8. When the caption file cannot be used (the fetch rejects, the status is not ok, the
  body is not JSON, or it has no \<^verbatim>\<open>captions\<close> field) and the manifest loads with its
  \<^verbatim>\<open>Lilia\<close> and \<^verbatim>\<open>Leylah\<close> entries, start-up still completes: the listeners and
  the first pick are set up, no error is shown, and the captions are the five built-in
  ones in their fixed order.
\<close>

theorem init_caption_failure_fallback:
  assumes "loadManifest manifest_response s = Inr s1"
    and "imageManifest s1 ''Lilia'' \<noteq> None" and "imageManifest s1 ''Leylah'' \<noteq> None"
    and "captions_response = NetworkError
         \<or> (\<exists>status body. captions_response = Response status body \<and> \<not> http_ok status)
         \<or> (\<exists>status. captions_response = Response status None)
         \<or> (\<exists>status. captions_response = Response status (Some None))"
  shows "captions (init manifest_response captions_response s)
           = [''A beautiful moment captured.'', ''Memories that will last forever.'',
              ''Pure happiness in a frame.'', ''A snapshot of joy.'', ''Time stands still here.'']
         \<and> wired (init manifest_response captions_response s)
         \<and> timer_armed (init manifest_response captions_response s)
         \<and> placeholder (dom (init manifest_response captions_response s)) = placeholder (dom s1)"
proof -
  have "captions (loadCaptions captions_response s1) = fallback_captions"
    using assms(4) by (auto simp: loadCaptions_cases split: option.split)
  then show ?thesis using assms(2,3)
    by (auto simp: init_ok_eq [OF assms(1)] setupEventListeners_def updateFolderButtons_def
        fallback_captions_def Let_def)
qed

theorem init_caption_failure_fallback_witness:
  "loadManifest (Response 200 (Some demo_manifest)) (new_app demo_page)
     = Inr ((new_app demo_page)\<lparr>imageManifest := demo_manifest\<rparr>)
   \<and> captions (init (Response 200 (Some demo_manifest)) NetworkError (new_app demo_page))
       = [''A beautiful moment captured.'', ''Memories that will last forever.'',
          ''Pure happiness in a frame.'', ''A snapshot of joy.'', ''Time stands still here.'']
   \<and> wired (init (Response 200 (Some demo_manifest)) NetworkError (new_app demo_page))"
proof -
  let ?s1 = "(new_app demo_page)\<lparr>imageManifest := demo_manifest\<rparr>"
  have h: "loadManifest (Response 200 (Some demo_manifest)) (new_app demo_page) = Inr ?s1"
    "imageManifest ?s1 ''Lilia'' \<noteq> None" "imageManifest ?s1 ''Leylah'' \<noteq> None"
    "(NetworkError :: captions_json fetch_result) = NetworkError
     \<or> (\<exists>status body. (NetworkError :: captions_json fetch_result) = Response status body \<and> \<not> http_ok status)
     \<or> (\<exists>status. (NetworkError :: captions_json fetch_result) = Response status None)
     \<or> (\<exists>status. (NetworkError :: captions_json fetch_result) = Response status (Some None))"
    by (simp_all add: loadManifest_def demo_manifest_def)
  show ?thesis using h(1) init_caption_failure_fallback [OF h] by simp
qed

text \<open>
  C9. When the manifest cannot be loaded, the page shows
  \<open>Failed to initialize. Check console.\<close>, no listener is wired and no pick is
  scheduled, the manifest stays empty, but the constructor's default folder
  \<^verbatim>\<open>Lilia\<close> is selected all the same.
\<close>

theorem page_load_manifest_failure:
  assumes "loadManifest manifest_response (new_app d) = Inl e"
  shows "currentFolder (page_load d manifest_response captions_response) = ''Lilia''
         \<and> \<not> wired (page_load d manifest_response captions_response)
         \<and> \<not> timer_armed (page_load d manifest_response captions_response)
         \<and> imageManifest (page_load d manifest_response captions_response) = Map.empty
         \<and> placeholder (dom (page_load d manifest_response captions_response))
             = Placeholder_Error ''Failed to initialize. Check console.''"
  unfolding page_load_def init_fail_eq [OF assms]
  by (simp add: new_app_def displayError_def init_failed_message_def)

theorem page_load_manifest_failure_witness:
  "loadManifest (NetworkError :: manifest fetch_result) (new_app demo_page) = Inl FetchFailed
   \<and> currentFolder (page_load demo_page NetworkError NetworkError) = ''Lilia''
   \<and> \<not> wired (page_load demo_page NetworkError NetworkError)"
proof -
  have h: "loadManifest (NetworkError :: manifest fetch_result) (new_app demo_page) = Inl FetchFailed"
    by (simp add: loadManifest_def)
  show ?thesis using h page_load_manifest_failure [OF h, of NetworkError] by simp
qed

text \<open>
  C10. A manifest that loads but lacks the \<^verbatim>\<open>Lilia\<close> or the \<^verbatim>\<open>Leylah\<close> entry
  makes \<^verbatim>\<open>init\<close> report \<open>Failed to initialize\<close>, yet the buttons are wired and the
  first pick is scheduled: the page claims failure and keeps running.
\<close>

theorem init_missing_folder_keeps_running:
  assumes "loadManifest manifest_response s = Inr s1"
    and "imageManifest s1 ''Lilia'' = None \<or> imageManifest s1 ''Leylah'' = None"
  shows "placeholder (dom (init manifest_response captions_response s))
           = Placeholder_Error ''Failed to initialize. Check console.''
         \<and> wired (init manifest_response captions_response s)
         \<and> timer_armed (init manifest_response captions_response s)"
  using assms(2)
  by (auto simp: init_ok_eq [OF assms(1)] setupEventListeners_def displayError_def
      init_failed_message_def)

theorem init_missing_folder_keeps_running_witness:
  "loadManifest (Response 200 (Some [''Roxy'' \<mapsto> [''c.jpg'']])) (new_app demo_page)
     = Inr ((new_app demo_page)\<lparr>imageManifest := [''Roxy'' \<mapsto> [''c.jpg'']]\<rparr>)
   \<and> wired (init (Response 200 (Some [''Roxy'' \<mapsto> [''c.jpg'']])) NetworkError (new_app demo_page))
   \<and> placeholder (dom (init (Response 200 (Some [''Roxy'' \<mapsto> [''c.jpg'']])) NetworkError
        (new_app demo_page))) = Placeholder_Error ''Failed to initialize. Check console.''"
proof -
  let ?s1 = "(new_app demo_page)\<lparr>imageManifest := [''Roxy'' \<mapsto> [''c.jpg'']]\<rparr>"
  have h: "loadManifest (Response 200 (Some [''Roxy'' \<mapsto> [''c.jpg'']])) (new_app demo_page) = Inr ?s1"
    "imageManifest ?s1 ''Lilia'' = None \<or> imageManifest ?s1 ''Leylah'' = None"
    by (simp_all add: loadManifest_def)
  show ?thesis using h(1) init_missing_folder_keeps_running [OF h, of NetworkError] by simp
qed

text \<open>
  C11. After \<^verbatim>\<open>loadCaptions\<close> the caption list is empty exactly when the server
  answered ok with an empty \<^verbatim>\<open>captions\<close> array; every other outcome leaves at least
  one caption.
\<close>

theorem loadCaptions_empty_iff:
  "captions (loadCaptions captions_response s) = []
   \<longleftrightarrow> (\<exists>status. http_ok status \<and> captions_response = Response status (Some (Some [])))"
  by (auto simp: loadCaptions_cases fallback_captions_def
      split: fetch_result.splits option.splits)

text \<open>
  C12. The manifest is load-bearing and the captions are cosmetic: start-up wires the
  page if and only if the manifest fetch returned an ok status with a JSON body, whatever
  happened to the caption fetch.
\<close>

theorem init_wired_iff_manifest:
  assumes "\<not> wired s"
  shows "wired (init manifest_response captions_response s)
         \<longleftrightarrow> (\<exists>status m. manifest_response = Response status (Some m) \<and> http_ok status)"
  using init_wired [OF assms] by (simp add: loadManifest_Inr)

theorem init_wired_iff_manifest_witness:
  "\<not> wired (new_app demo_page)
   \<and> wired (init (Response 200 (Some demo_manifest)) (Response 404 None) (new_app demo_page))"
proof -
  have h: "\<not> wired (new_app demo_page)" by (simp add: new_app_def)
  show ?thesis using h init_wired_iff_manifest [OF h, of "Response 200 (Some demo_manifest)"
      "Response 404 None"] by simp
qed

end
