(* ===== verification/Events.thy ===== *)
theory Events
  imports Loader
begin

text \<open>
  The page after start-up, as the browser runs it: one event at a time from the event
  loop. The events are the listeners \<^verbatim>\<open>setupEventListeners\<close> installs (a click on a
  folder button, a click on the generate button), its one-second timer, and the four
  callbacks of \<^verbatim>\<open>displayImage\<close>: the \<^verbatim>\<open>load\<close> or \<^verbatim>\<open>error\<close> of any pending
  probe, in any order (the network does not keep the order of requests), and the
  \<^verbatim>\<open>load\<close> or \<^verbatim>\<open>error\<close> of the page's image element after a probe assigned its
  \<^verbatim>\<open>src\<close>. An event carries the \<^verbatim>\<open>Math.random()\<close> values its handler draws.
  \<open>step\<close> is \<open>None\<close> for an event that cannot happen in the state (a click on a
  button the page does not have, a callback of no pending probe, a timer already fired);
  a click before the listeners are wired has no effect.
\<close>

datatype event =
    ClickFolder folder real
  | ClickGenerate real real
  | TimerFires real real
  | ProbeLoad nat
  | ProbeError nat
  | ImgLoad
  | ImgError

definition remove_probe :: "nat \<Rightarrow> app \<Rightarrow> app" where
  "remove_probe k s = s\<lparr>probes := filter (\<lambda>(i, _). i \<noteq> k) (probes s)\<rparr>"

fun step :: "event \<Rightarrow> app \<Rightarrow> app option" where
  "step (ClickFolder f r) s =
     (if f \<in> set (button_folders (dom s)) \<and> js_random r
      then Some (if wired s then selectFolder f r s else s) else None)"
| "step (ClickGenerate r1 r2) s =
     (if js_random r1 \<and> js_random r2
      then Some (if wired s then generateRandomImage r1 r2 s else s) else None)"
| "step (TimerFires r1 r2) s =
     (if timer_armed s \<and> js_random r1 \<and> js_random r2
      then Some (generateRandomImage r1 r2 (s\<lparr>timer_armed := False\<rparr>)) else None)"
| "step (ProbeLoad k) s =
     (case map_of (probes s) k of
        None \<Rightarrow> None
      | Some imagePath \<Rightarrow> Some (probe_onload imagePath (remove_probe k s)))"
| "step (ProbeError k) s =
     (case map_of (probes s) k of
        None \<Rightarrow> None
      | Some imagePath \<Rightarrow> Some (probe_onerror imagePath (remove_probe k s)))"
| "step ImgLoad s =
     (if img_loading s then Some (img_onload_fire (s\<lparr>img_loading := False\<rparr>)) else None)"
| "step ImgError s =
     (if img_loading s then Some (img_onerror_fire (s\<lparr>img_loading := False\<rparr>)) else None)"

fun run :: "event list \<Rightarrow> app \<Rightarrow> app option" where
  "run [] s = Some s"
| "run (e # es) s = (case step e s of None \<Rightarrow> None | Some t \<Rightarrow> run es t)"

text \<open>
  The page as \<^verbatim>\<open>index.html\<close> delivers it: the image element has no source and no
  handlers, and no two folder buttons carry the same \<^verbatim>\<open>data-folder\<close>.
\<close>

definition initial_page :: "dom \<Rightarrow> bool" where
  "initial_page d \<longleftrightarrow> img_src d = None \<and> img_onload d = None \<and> img_onerror d = None
                      \<and> distinct (button_folders d)"

inductive reachable :: "app \<Rightarrow> bool" where
  start: "initial_page d \<Longrightarrow> reachable (page_load d manifest_response captions_response)"
| step: "reachable s \<Longrightarrow> step e s = Some t \<Longrightarrow> reachable t"

subsection \<open>Invariants\<close>

definition manifest_path :: "manifest \<Rightarrow> string \<Rightarrow> bool" where
  "manifest_path m p \<longleftrightarrow> (\<exists>f images. m f = Some images \<and> (\<exists>file \<in> set images. p = f @ ''/'' @ file))"

definition paths_inv :: "app \<Rightarrow> bool" where
  "paths_inv s \<longleftrightarrow>
     (\<forall>p \<in> snd ` set (probes s). manifest_path (imageManifest s) p)
     \<and> (\<forall>p \<in> set_option (img_src (dom s)). manifest_path (imageManifest s) p)
     \<and> (\<forall>p \<in> set_option (img_onerror (dom s)). manifest_path (imageManifest s) p)"

definition probes_inv :: "app \<Rightarrow> bool" where
  "probes_inv s \<longleftrightarrow> distinct (map fst (probes s)) \<and> (\<forall>k \<in> fst ` set (probes s). k < next_probe s)"

definition buttons_inv :: "app \<Rightarrow> bool" where
  "buttons_inv s \<longleftrightarrow> distinct (button_folders (dom s))
     \<and> (wired s \<longrightarrow> folder_buttons (dom s) = map (\<lambda>f. (f, f = currentFolder s)) (button_folders (dom s)))"

definition folder_inv :: "app \<Rightarrow> bool" where
  "folder_inv s \<longleftrightarrow> currentFolder s \<noteq> ''random''
     \<and> currentFolder s \<in> insert ''Lilia'' (set random_folders \<union> set (button_folders (dom s)))"

definition app_inv :: "app \<Rightarrow> bool" where
  "app_inv s \<longleftrightarrow> paths_inv s \<and> probes_inv s \<and> buttons_inv s \<and> folder_inv s"

text \<open>The spec's example page after a successful start-up with two captions.\<close>

definition demo_start :: app where
  "demo_start = page_load demo_page (Response 200 (Some demo_manifest))
                  (Response 200 (Some (Some [''Hi'', ''Bye''])))"

declare remove_probe_def [app_simps]

lemmas demo_run_simps = demo_start_def demo_defs app_simps js_simps js_floor_index_def
  button_folders_def updateFolderButtons_def fallback_captions_def init_failed_message_def

lemma map_of_snd_mem: "map_of xs k = Some v \<Longrightarrow> v \<in> snd ` set xs"
  by (force dest: map_of_SomeD)

lemma map_of_fst_mem: "map_of xs k = Some v \<Longrightarrow> k \<in> fst ` set xs"
  by (force dest: map_of_SomeD)

lemma manifest_path_pick:
  assumes "js_random r" and "m f = Some images" and "images \<noteq> []"
  shows "manifest_path m (f @ ''/'' @ images ! js_floor_index r (length images))"
  using assms js_floor_index_less [OF assms(1)] unfolding manifest_path_def by force

subsubsection \<open>What each step leaves alone\<close>

lemma step_frame:
  assumes "step e s = Some t"
  shows "imageManifest t = imageManifest s \<and> captions t = captions s
         \<and> button_folders (dom t) = button_folders (dom s)"
  using assms
  by (cases e) (auto simp: probe_onload_def probe_onerror_def img_onload_fire_def
      img_onerror_fire_def selectFolder_def remove_probe_def button_folders_def dom_writes
      updateFolderButtons_def split_beta comp_def Let_def split: if_splits option.splits)

subsubsection \<open>Paths come from the manifest\<close>

lemma paths_inv_page_writes [simp]:
  "paths_inv (s\<lparr>timer_armed := b\<rparr>) = paths_inv s"
  "paths_inv (s\<lparr>img_loading := b\<rparr>) = paths_inv s"
  "paths_inv (selectFolder f r s) = paths_inv s"
  "paths_inv (probe_onerror p s) = paths_inv s"
  "paths_inv (img_onload_fire s) = paths_inv s"
  "paths_inv (img_onerror_fire s) = paths_inv s"
  by (simp_all add: paths_inv_def selectFolder_def Let_def updateFolderButtons_def
      probe_onerror_def img_onload_fire_def img_onerror_fire_def dom_writes split: option.split)

lemma paths_inv_generate:
  assumes "js_random r1" and "paths_inv s"
  shows "paths_inv (generateRandomImage r1 r2 s)"
proof (cases "imageManifest s (currentFolder s) = None \<or> imageManifest s (currentFolder s) = Some []")
  case True
  then show ?thesis using assms(2) by (simp add: generate_fail_eq paths_inv_def dom_writes)
next
  case False
  then obtain images where m: "imageManifest s (currentFolder s) = Some images"
    and ne: "images \<noteq> []" by auto
  have "manifest_path (imageManifest s)
          (currentFolder s @ ''/'' @ images ! js_floor_index r1 (length images))"
    using manifest_path_pick [of r1 "imageManifest s" "currentFolder s" images] assms(1) m ne
    by blast
  then show ?thesis using assms(2)
    by (simp add: generate_ok_eq [OF assms(1) m ne] paths_inv_def dom_writes)
qed

lemma paths_inv_remove_probe: "paths_inv s \<Longrightarrow> paths_inv (remove_probe k s)"
  by (auto simp: paths_inv_def remove_probe_def)

lemma paths_inv_probe_onload:
  assumes "paths_inv s" and "manifest_path (imageManifest s) p"
  shows "paths_inv (probe_onload p s)"
  using assms by (simp add: paths_inv_def probe_onload_def)

lemma paths_inv_step:
  assumes "step e s = Some t" and "paths_inv s"
  shows "paths_inv t"
proof (cases e)
  case (ProbeLoad k)
  with assms(1) obtain p where p: "map_of (probes s) k = Some p"
    and t: "t = probe_onload p (remove_probe k s)"
    by (auto split: option.splits)
  have "manifest_path (imageManifest s) p"
    using assms(2) map_of_snd_mem [OF p] unfolding paths_inv_def by blast
  then show ?thesis
    using t paths_inv_probe_onload [OF paths_inv_remove_probe [OF assms(2)]]
    by (simp add: remove_probe_def)
qed (use assms in \<open>auto simp: paths_inv_generate paths_inv_remove_probe
       split: if_splits option.splits\<close>)

subsubsection \<open>Probe numbers are fresh\<close>

lemma probes_inv_page_writes [simp]:
  "probes_inv (s\<lparr>timer_armed := b\<rparr>) = probes_inv s"
  "probes_inv (s\<lparr>img_loading := b\<rparr>) = probes_inv s"
  "probes_inv (selectFolder f r s) = probes_inv s"
  "probes_inv (probe_onload p s) = probes_inv s"
  "probes_inv (probe_onerror p s) = probes_inv s"
  "probes_inv (img_onload_fire s) = probes_inv s"
  "probes_inv (img_onerror_fire s) = probes_inv s"
  by (simp_all add: probes_inv_def selectFolder_def Let_def probe_onload_def
      probe_onerror_def img_onload_fire_def img_onerror_fire_def split: option.split)

lemma probes_inv_generate:
  assumes "probes_inv s"
  shows "probes_inv (generateRandomImage r1 r2 s)"
  using assms
  by (auto simp: generateRandomImage_def displayImage_def probes_inv_def Let_def
      split: option.split)

lemma probes_inv_remove_probe: "probes_inv s \<Longrightarrow> probes_inv (remove_probe k s)"
  by (auto simp: probes_inv_def remove_probe_def distinct_map_filter)

lemma probes_inv_step:
  assumes "step e s = Some t" and "probes_inv s"
  shows "probes_inv t"
  using assms
  by (cases e) (auto simp: probes_inv_generate probes_inv_remove_probe
      split: if_splits option.splits)

subsubsection \<open>The active button follows the current folder\<close>

lemma buttons_inv_page_writes [simp]:
  "buttons_inv (s\<lparr>timer_armed := b\<rparr>) = buttons_inv s"
  "buttons_inv (s\<lparr>img_loading := b\<rparr>) = buttons_inv s"
  "buttons_inv (remove_probe k s) = buttons_inv s"
  "buttons_inv (probe_onload p s) = buttons_inv s"
  "buttons_inv (probe_onerror p s) = buttons_inv s"
  "buttons_inv (img_onload_fire s) = buttons_inv s"
  "buttons_inv (img_onerror_fire s) = buttons_inv s"
  "buttons_inv (generateRandomImage r1 r2 s) = buttons_inv s"
  by (simp_all add: buttons_inv_def button_folders_def remove_probe_def probe_onload_def
      probe_onerror_def img_onload_fire_def img_onerror_fire_def dom_writes
      split: option.split)

lemma buttons_inv_selectFolder: "buttons_inv s \<Longrightarrow> buttons_inv (selectFolder f r s)"
  by (simp add: buttons_inv_def selectFolder_def Let_def buttons_consistent_update)

lemma buttons_inv_step:
  assumes "step e s = Some t" and "buttons_inv s"
  shows "buttons_inv t"
  using assms
  by (cases e) (auto simp: buttons_inv_selectFolder split: if_splits option.splits)

subsubsection \<open>The current folder\<close>

lemma folder_inv_page_writes [simp]:
  "folder_inv (s\<lparr>timer_armed := b\<rparr>) = folder_inv s"
  "folder_inv (s\<lparr>img_loading := b\<rparr>) = folder_inv s"
  "folder_inv (remove_probe k s) = folder_inv s"
  "folder_inv (probe_onload p s) = folder_inv s"
  "folder_inv (probe_onerror p s) = folder_inv s"
  "folder_inv (img_onload_fire s) = folder_inv s"
  "folder_inv (img_onerror_fire s) = folder_inv s"
  "folder_inv (generateRandomImage r1 r2 s) = folder_inv s"
  by (simp_all add: folder_inv_def button_folders_def remove_probe_def probe_onload_def
      probe_onerror_def img_onload_fire_def img_onerror_fire_def dom_writes
      split: option.split)

lemma folder_inv_selectFolder:
  assumes "folder_inv s" and "f \<in> set (button_folders (dom s))" and "js_random r"
  shows "folder_inv (selectFolder f r s)"
proof -
  have "random_folders ! js_floor_index r 3 \<in> set random_folders"
    using random_folders_index [OF assms(3)] by simp
  moreover have "''random'' \<notin> set random_folders" by (simp add: random_folders_def)
  ultimately show ?thesis using assms(1,2)
    by (auto simp: folder_inv_def selectFolder_current)
      (auto simp: selectFolder_def Let_def)
qed

lemma folder_inv_step:
  assumes "step e s = Some t" and "folder_inv s"
  shows "folder_inv t"
  using assms
  by (cases e) (auto simp: folder_inv_selectFolder split: if_splits option.splits)

subsubsection \<open>The invariant\<close>

lemma app_inv_step: "step e s = Some t \<Longrightarrow> app_inv s \<Longrightarrow> app_inv t"
  by (simp add: app_inv_def paths_inv_step probes_inv_step buttons_inv_step folder_inv_step)

lemma app_inv_page_load:
  assumes "initial_page d"
  shows "app_inv (page_load d manifest_response captions_response)"
proof (cases "loadManifest manifest_response (new_app d)")
  case (Inl e)
  show ?thesis using assms unfolding page_load_def init_fail_eq [OF Inl]
    by (simp add: app_inv_def paths_inv_def probes_inv_def buttons_inv_def folder_inv_def
        initial_page_def button_folders_def new_app_def dom_writes)
next
  case (Inr s1)
  then obtain m where s1: "s1 = (new_app d)\<lparr>imageManifest := m\<rparr>"
    by (auto simp: loadManifest_Inr)
  show ?thesis using assms unfolding page_load_def init_ok_eq [OF Inr]
    by (simp add: s1 app_inv_def paths_inv_def probes_inv_def buttons_inv_def folder_inv_def
        initial_page_def new_app_def setupEventListeners_def updateFolderButtons_def
        button_folders_def split_beta comp_def Let_def dom_writes)
qed

lemma reachable_app_inv: "reachable s \<Longrightarrow> app_inv s"
proof (induction rule: reachable.induct)
  case (start d manifest_response captions_response)
  then show ?case by (rule app_inv_page_load)
next
  case (step s e t)
  then show ?case using app_inv_step by blast
qed

lemma reachable_run: "reachable s \<Longrightarrow> run es s = Some t \<Longrightarrow> reachable t"
proof (induction es arbitrary: s)
  case Nil
  then show ?case by simp
next
  case (Cons e es)
  then obtain u where u: "step e s = Some u" and r: "run es u = Some t"
    by (auto split: option.splits)
  from Cons.prems(1) u have "reachable u" by (rule reachable.step)
  then show ?case using r by (rule Cons.IH)
qed

lemma reachable_demo_start: "reachable demo_start"
proof -
  have "initial_page demo_page" by (simp add: initial_page_def demo_page_def button_folders_def)
  then show ?thesis unfolding demo_start_def by (rule reachable.start)
qed

lemma map_of_filter_other:
  "k1 \<noteq> k2 \<Longrightarrow> map_of (filter (\<lambda>(i, _). i \<noteq> k2) xs) k1 = map_of xs k1"
  by (induction xs) auto

subsection \<open>Properties of the running page\<close>

text \<open>
  C13. Safety of what the page loads: in every reachable state, every pending probe and
  the image element's \<^verbatim>\<open>src\<close> are paths \<open>folder/file\<close> with \<open>file\<close> listed for
  \<open>folder\<close> in the loaded manifest.
\<close>

theorem reachable_paths_in_manifest:
  assumes "reachable s"
  shows "(\<forall>p \<in> set_option (img_src (dom s)). manifest_path (imageManifest s) p)
         \<and> (\<forall>p \<in> snd ` set (probes s). manifest_path (imageManifest s) p)"
  using reachable_app_inv [OF assms] by (simp add: app_inv_def paths_inv_def)

theorem reachable_paths_in_manifest_witness:
  "reachable (the (run [ClickGenerate 0 0, ProbeLoad 0] demo_start))
   \<and> img_src (dom (the (run [ClickGenerate 0 0, ProbeLoad 0] demo_start))) = Some ''Lilia/a.jpg''
   \<and> manifest_path (imageManifest (the (run [ClickGenerate 0 0, ProbeLoad 0] demo_start)))
       ''Lilia/a.jpg''"
proof -
  let ?t = "the (run [ClickGenerate 0 0, ProbeLoad 0] demo_start)"
  have run: "run [ClickGenerate 0 0, ProbeLoad 0] demo_start = Some ?t"
    by (simp add: demo_run_simps)
  have r: "reachable ?t" by (rule reachable_run [OF reachable_demo_start run])
  have src: "img_src (dom ?t) = Some ''Lilia/a.jpg''" by (simp add: demo_run_simps)
  show ?thesis using r src reachable_paths_in_manifest [OF r] by simp
qed

text \<open>
  C14. Overlapping picks are not ordered: for any two pending probes, if the earlier
  one's \<^verbatim>\<open>load\<close> fires last, the page's image becomes the earlier path (and its
  error handler reports that path), while the caption line keeps what the latest pick
  wrote. The last pick issued does not win; the last probe completed does.
\<close>

theorem probe_completion_order_wins:
  assumes "map_of (probes s) k1 = Some p1" and "map_of (probes s) k2 = Some p2"
    and "k1 \<noteq> k2"
  shows "\<exists>t. run [ProbeLoad k2, ProbeLoad k1] s = Some t
             \<and> img_src (dom t) = Some p1 \<and> img_onerror (dom t) = Some p1
             \<and> caption_text (dom t) = caption_text (dom s)"
  using assms by (simp add: map_of_filter_other [OF assms(3)] probe_onload_def remove_probe_def)

theorem probe_completion_order_wins_witness:
  "map_of (probes (the (run [ClickGenerate 0 0, ClickGenerate (1/2) (1/2)] demo_start))) 0
     = Some ''Lilia/a.jpg''
   \<and> map_of (probes (the (run [ClickGenerate 0 0, ClickGenerate (1/2) (1/2)] demo_start))) 1
     = Some ''Lilia/b.jpg''
   \<and> caption_text (dom (the (run [ClickGenerate 0 0, ClickGenerate (1/2) (1/2)] demo_start)))
     = ''Bye''
   \<and> (\<exists>t. run [ProbeLoad 1, ProbeLoad 0]
            (the (run [ClickGenerate 0 0, ClickGenerate (1/2) (1/2)] demo_start)) = Some t
          \<and> img_src (dom t) = Some ''Lilia/a.jpg'' \<and> caption_text (dom t) = ''Bye'')"
proof -
  let ?s = "the (run [ClickGenerate 0 0, ClickGenerate (1/2) (1/2)] demo_start)"
  have h: "map_of (probes ?s) 0 = Some ''Lilia/a.jpg''" "map_of (probes ?s) 1 = Some ''Lilia/b.jpg''"
    "(0::nat) \<noteq> 1" and c: "caption_text (dom ?s) = ''Bye''"
    by (simp_all add: demo_run_simps)
  from probe_completion_order_wins [OF h] obtain t
    where t: "run [ProbeLoad 1, ProbeLoad 0] ?s = Some t" "img_src (dom t) = Some ''Lilia/a.jpg''"
      "caption_text (dom t) = caption_text (dom ?s)"
    by blast
  show ?thesis using h c t(1,2) t(3) [unfolded c] by blast
qed

text \<open>
  C15. Once the page is wired, in every reachable state the buttons marked active are
  exactly the button of the current folder, if the page has one: never two.
\<close>

theorem reachable_active_button:
  assumes "reachable s" and "wired s"
  shows "active_buttons (dom s)
           = (if currentFolder s \<in> set (button_folders (dom s)) then [currentFolder s] else [])"
proof -
  have inv: "buttons_inv s" using reachable_app_inv [OF assms(1)] by (simp add: app_inv_def)
  then have "active_buttons (dom s) = filter (\<lambda>f. f = currentFolder s) (button_folders (dom s))"
    using assms(2) by (simp add: buttons_inv_def active_buttons_def comp_def)
  then show ?thesis using inv
    by (auto simp: buttons_inv_def filter_eq_distinct filter_empty_conv)
qed

theorem reachable_active_button_witness:
  "reachable demo_start \<and> wired demo_start
   \<and> active_buttons (dom demo_start) = [''Lilia'']"
proof -
  have h: "reachable demo_start" "wired demo_start"
    by (rule reachable_demo_start) (simp add: demo_run_simps)
  have "currentFolder demo_start \<in> set (button_folders (dom demo_start))"
    "currentFolder demo_start = ''Lilia''"
    by (simp_all add: demo_run_simps)
  then show ?thesis using h reachable_active_button [OF h] by simp
qed

text \<open>
  C16. The loaded data is read-only: no sequence of events changes the manifest, the
  captions or the set of folder buttons.
\<close>

theorem run_preserves_data:
  assumes "run es s = Some t"
  shows "imageManifest t = imageManifest s \<and> captions t = captions s
         \<and> button_folders (dom t) = button_folders (dom s)"
  using assms
proof (induction es arbitrary: s)
  case Nil
  then show ?case by simp
next
  case (Cons e es)
  then obtain u where "step e s = Some u" and "run es u = Some t"
    by (auto split: option.splits)
  with Cons.IH show ?case using step_frame by metis
qed

theorem run_preserves_data_witness:
  "run [ClickFolder ''Roxy'' 0, ClickGenerate 0 0, ProbeError 0] demo_start
     = Some (the (run [ClickFolder ''Roxy'' 0, ClickGenerate 0 0, ProbeError 0] demo_start))
   \<and> captions (the (run [ClickFolder ''Roxy'' 0, ClickGenerate 0 0, ProbeError 0] demo_start))
     = captions demo_start"
proof -
  have h: "run [ClickFolder ''Roxy'' 0, ClickGenerate 0 0, ProbeError 0] demo_start
     = Some (the (run [ClickFolder ''Roxy'' 0, ClickGenerate 0 0, ProbeError 0] demo_start))"
    by (simp add: demo_run_simps)
  show ?thesis using h run_preserves_data [OF h] by simp
qed

text \<open>
  C17. The well-formedness invariant of the page (pending and displayed paths come from
  the manifest, probe numbers are distinct and fresh, the buttons follow the current
  folder once wired, the current folder is a known one) is kept by every interleaving
  of clicks, timer and load callbacks.
\<close>

theorem run_preserves_app_inv:
  assumes "app_inv s" and "run es s = Some t"
  shows "app_inv t"
  using assms
proof (induction es arbitrary: s)
  case Nil
  then show ?case by simp
next
  case (Cons e es)
  then obtain u where "step e s = Some u" and "run es u = Some t"
    by (auto split: option.splits)
  with Cons.IH Cons.prems(1) show ?case using app_inv_step by blast
qed

theorem run_preserves_app_inv_witness:
  "app_inv demo_start
   \<and> run [ClickGenerate 0 0, ClickGenerate 0 0, ProbeLoad 1, ImgError] demo_start
     = Some (the (run [ClickGenerate 0 0, ClickGenerate 0 0, ProbeLoad 1, ImgError] demo_start))
   \<and> app_inv (the (run [ClickGenerate 0 0, ClickGenerate 0 0, ProbeLoad 1, ImgError] demo_start))"
proof -
  have h: "app_inv demo_start" by (rule reachable_app_inv [OF reachable_demo_start])
  have r: "run [ClickGenerate 0 0, ClickGenerate 0 0, ProbeLoad 1, ImgError] demo_start
     = Some (the (run [ClickGenerate 0 0, ClickGenerate 0 0, ProbeLoad 1, ImgError] demo_start))"
    by (simp add: demo_run_simps)
  show ?thesis using h r run_preserves_app_inv [OF h r] by simp
qed

text \<open>
  C18. The image's \<^verbatim>\<open>alt\<close> text names the folder selected when the probe finishes,
  not the folder the image came from: in any wired state with a pending probe, a click on
  another folder's button before the probe loads leaves the old path in the image element
  labelled with the new folder, while the source line still names the old one.
\<close>

theorem alt_text_reads_folder_at_completion:
  assumes "wired s" and "map_of (probes s) k = Some p"
    and "g \<in> set (button_folders (dom s))" and "g \<noteq> ''random''" and "js_random r"
  shows "\<exists>t. run [ClickFolder g r, ProbeLoad k] s = Some t
             \<and> img_src (dom t) = Some p
             \<and> img_alt (dom t) = Some (''Image from '' @ g)
             \<and> source_text (dom t) = source_text (dom s)"
  using assms
  by (simp add: selectFolder_def Let_def probe_onload_def remove_probe_def updateFolderButtons_def)

theorem alt_text_reads_folder_at_completion_witness:
  "wired (the (run [ClickGenerate 0 0] demo_start))
   \<and> map_of (probes (the (run [ClickGenerate 0 0] demo_start))) 0 = Some ''Lilia/a.jpg''
   \<and> ''Roxy'' \<in> set (button_folders (dom (the (run [ClickGenerate 0 0] demo_start))))
   \<and> source_text (dom (the (run [ClickGenerate 0 0] demo_start))) = ''Source: Lilia folder''
   \<and> (\<exists>t. run [ClickFolder ''Roxy'' 0, ProbeLoad 0] (the (run [ClickGenerate 0 0] demo_start)) = Some t
        \<and> img_src (dom t) = Some ''Lilia/a.jpg'' \<and> img_alt (dom t) = Some ''Image from Roxy''
        \<and> source_text (dom t) = ''Source: Lilia folder'')"
proof -
  let ?s = "the (run [ClickGenerate 0 0] demo_start)"
  have h: "wired ?s" "map_of (probes ?s) 0 = Some ''Lilia/a.jpg''"
    "''Roxy'' \<in> set (button_folders (dom ?s))" "''Roxy'' \<noteq> ''random''" "js_random 0"
    and src: "source_text (dom ?s) = ''Source: Lilia folder''"
    by (simp_all add: demo_run_simps)
  from alt_text_reads_folder_at_completion [OF h] obtain t
    where t: "run [ClickFolder ''Roxy'' 0, ProbeLoad 0] ?s = Some t" "img_src (dom t) = Some ''Lilia/a.jpg''"
      "img_alt (dom t) = Some (''Image from '' @ ''Roxy'')" "source_text (dom t) = source_text (dom ?s)"
    by blast
  show ?thesis using h src t by auto
qed

text \<open>
  C19. The current folder is always the constructor's \<^verbatim>\<open>Lilia\<close>, one of the random
  candidates, or the \<^verbatim>\<open>data-folder\<close> of a button of the page, and never the sentinel
  \<^verbatim>\<open>random\<close>.
\<close>

theorem reachable_current_folder:
  assumes "reachable s"
  shows "currentFolder s \<noteq> ''random''
         \<and> currentFolder s \<in> insert ''Lilia'' (set random_folders \<union> set (button_folders (dom s)))"
  using reachable_app_inv [OF assms] by (simp add: app_inv_def folder_inv_def)

theorem reachable_current_folder_witness:
  "reachable (the (run [ClickFolder ''random'' (1/2)] demo_start))
   \<and> currentFolder (the (run [ClickFolder ''random'' (1/2)] demo_start)) = ''Leylah''"
proof -
  have run: "run [ClickFolder ''random'' (1/2)] demo_start
      = Some (the (run [ClickFolder ''random'' (1/2)] demo_start))"
    by (simp add: demo_run_simps)
  have r: "reachable (the (run [ClickFolder ''random'' (1/2)] demo_start))"
    by (rule reachable_run [OF reachable_demo_start run])
  have "currentFolder (the (run [ClickFolder ''random'' (1/2)] demo_start)) = ''Leylah''"
    by (simp add: demo_run_simps random_folders_def)
  then show ?thesis using r reachable_current_folder [OF r] by simp
qed

lemma filter_fresh_id:
  "k \<notin> fst ` set ps \<Longrightarrow> filter (\<lambda>(i, _). i \<noteq> k) ps = ps"
  by (induction ps) auto

lemma run_append:
  "run (xs @ ys) s = (case run xs s of None \<Rightarrow> None | Some t \<Rightarrow> run ys t)"
  by (induction xs arbitrary: s) (auto split: option.split)

text \<open>
  Letting every pending probe load, in creation order, hands the last one's path to the
  image element, with its handlers installed and its load pending.
\<close>

lemma run_probe_loads:
  assumes "distinct (map fst (probes s))" and "probes s \<noteq> []"
  shows "\<exists>u. run (map (\<lambda>(k, _). ProbeLoad k) (probes s)) s = Some u \<and> probes u = []
             \<and> img_loading u \<and> img_src (dom u) = Some (snd (last (probes s)))
             \<and> img_onload (dom u) = Some (snd (last (probes s)))"
  using assms
proof (induction "probes s" arbitrary: s)
  case Nil
  then show ?case by simp
next
  case (Cons kp ps)
  obtain k p where kp: "kp = (k, p)" by (cases kp)
  have pr: "probes s = (k, p) # ps" using Cons.hyps(2) kp by simp
  with Cons.prems have fresh: "k \<notin> fst ` set ps" and dist: "distinct (map fst ps)"
    by auto
  let ?u = "probe_onload p (remove_probe k s)"
  have step: "step (ProbeLoad k) s = Some ?u"
    using pr by simp
  have ps: "probes ?u = ps"
    using pr fresh by (simp add: probe_onload_def remove_probe_def filter_fresh_id)
  show ?case
  proof (cases "ps = []")
    case True
    then show ?thesis using step ps pr by (simp add: probe_onload_def)
  next
    case False
    then obtain u where "run (map (\<lambda>(k, _). ProbeLoad k) (probes ?u)) ?u = Some u"
      and "probes u = []" "img_loading u" "img_src (dom u) = Some (snd (last (probes ?u)))"
      "img_onload (dom u) = Some (snd (last (probes ?u)))"
      using Cons.hyps(1) [of ?u] ps dist by auto
    then show ?thesis using step ps pr False by auto
  qed
qed

text \<open>
  C20. No pick stays in the loading state if the network answers: from any reachable
  state with pending probes, letting every probe load in the order the picks were made
  and then letting the image element load is a possible run, and it ends with no probe
  pending, the placeholder hidden and the image of the latest pick shown.
\<close>

theorem answered_probes_display_latest:
  assumes "reachable s" and "probes s \<noteq> []"
  shows "\<exists>t. run (map (\<lambda>(k, _). ProbeLoad k) (probes s) @ [ImgLoad]) s = Some t
             \<and> probes t = [] \<and> placeholder_hidden (dom t) \<and> \<not> img_hidden (dom t)
             \<and> img_src (dom t) = Some (snd (last (probes s)))"
proof -
  have "distinct (map fst (probes s))"
    using reachable_app_inv [OF assms(1)] by (simp add: app_inv_def probes_inv_def)
  from run_probe_loads [OF this assms(2)] obtain u
    where u: "run (map (\<lambda>(k, _). ProbeLoad k) (probes s)) s = Some u" "probes u = []"
      "img_loading u" "img_src (dom u) = Some (snd (last (probes s)))"
      "img_onload (dom u) = Some (snd (last (probes s)))"
    by blast
  then show ?thesis by (simp add: run_append img_onload_fire_def)
qed

theorem answered_probes_display_latest_witness:
  "\<exists>s. run [ClickGenerate 0 0, ClickGenerate (1/2) 0] demo_start = Some s \<and> reachable s
       \<and> probes s = [(0, ''Lilia/a.jpg''), (1, ''Lilia/b.jpg'')]
       \<and> (\<exists>t. run [ProbeLoad 0, ProbeLoad 1, ImgLoad] s = Some t \<and> probes t = []
              \<and> \<not> img_hidden (dom t) \<and> img_src (dom t) = Some ''Lilia/b.jpg'')"
proof -
  have "\<exists>s. run [ClickGenerate 0 0, ClickGenerate (1/2) 0] demo_start = Some s"
    by (simp add: demo_run_simps)
  then obtain s where run: "run [ClickGenerate 0 0, ClickGenerate (1/2) 0] demo_start = Some s"
    by blast
  have r: "reachable s" by (rule reachable_run [OF reachable_demo_start run])
  have p: "probes s = [(0, ''Lilia/a.jpg''), (1, ''Lilia/b.jpg'')]"
    using run by (auto simp: demo_run_simps)
  then have ne: "probes s \<noteq> []" by simp
  have evs: "map (\<lambda>(k, _). ProbeLoad k) (probes s) @ [ImgLoad] = [ProbeLoad 0, ProbeLoad 1, ImgLoad]"
    and last: "snd (last (probes s)) = ''Lilia/b.jpg''"
    using p by simp_all
  from answered_probes_display_latest [OF r ne] obtain t
    where "run (map (\<lambda>(k, _). ProbeLoad k) (probes s) @ [ImgLoad]) s = Some t" "probes t = []"
      "\<not> img_hidden (dom t)" "img_src (dom t) = Some (snd (last (probes s)))"
    by blast
  then show ?thesis using run r p unfolding evs last by blast
qed

text \<open>
  C27. A folder click and a probe's \<^verbatim>\<open>error\<close> commute: in whichever order the event
  loop delivers them the page ends in the same state. A folder click and a probe's
  \<^verbatim>\<open>load\<close> do not commute, because the load reads the current folder for the image's
  \<^verbatim>\<open>alt\<close> text.
\<close>

theorem folder_click_commutation:
  "(\<forall>f r k s. run [ClickFolder f r, ProbeError k] s = run [ProbeError k, ClickFolder f r] s)
   \<and> (\<exists>f r k s. run [ClickFolder f r, ProbeLoad k] s \<noteq> run [ProbeLoad k, ClickFolder f r] s)"
proof
  show "\<forall>f r k s. run [ClickFolder f r, ProbeError k] s = run [ProbeError k, ClickFolder f r] s"
    by (auto simp: selectFolder_def Let_def probe_onerror_def remove_probe_def button_folders_def
        updateFolderButtons_def displayError_def split: option.split)
  let ?s = "the (run [ClickGenerate 0 0] demo_start)"
  have "run [ClickFolder ''Roxy'' 0, ProbeLoad 0] ?s \<noteq> run [ProbeLoad 0, ClickFolder ''Roxy'' 0] ?s"
    by (simp add: demo_run_simps)
  then show "\<exists>f r k s. run [ClickFolder f r, ProbeLoad k] s \<noteq> run [ProbeLoad k, ClickFolder f r] s"
    by blast
qed

end
