(* ===== verification/Presentation.thy ===== *)
theory Presentation
  imports Events
begin

text \<open>
  The spec's state machine for image presentation (section 4.1): \<open>Idle\<close>, then
  \<open>Loading\<close> when a pick succeeds, then \<open>Displayed\<close> or \<open>Failed\<close>; a new pick
  restarts the cycle, and a pick error is reported as a failure. \<open>view\<close> reads the
  machine's state off the page the code writes: the placeholder box and the image
  element's visibility. \<open>spec_trans\<close> is the spec's transition relation. The theorems of
  this theory are that every step of the code is a step of the spec's machine, a stutter,
  or one transition the spec does not have, and that this transition follows a new pick
  in every state where the image element is still loading.
\<close>

datatype presentation = Idle | Loading | Displayed | Failed

definition view :: "dom \<Rightarrow> presentation" where
  "view d =
     (if placeholder_hidden d then (if img_hidden d then Idle else Displayed)
      else (case placeholder d of
              Placeholder_Initial \<Rightarrow> Idle
            | Placeholder_Loading \<Rightarrow> Loading
            | Placeholder_Error _ \<Rightarrow> Failed))"

inductive spec_trans :: "presentation \<Rightarrow> presentation \<Rightarrow> bool" where
  pick_starts: "spec_trans p Loading"
| pick_fails: "spec_trans p Failed"
| probe_displays: "spec_trans Loading Displayed"

inductive_cases spec_trans_DisplayedE: "spec_trans p Displayed"

text \<open>
  Work in flight (a pending probe or a loading image) is never shown as \<open>Idle\<close>, and an
  image element that is loading has its \<^verbatim>\<open>onload\<close> handler installed.
\<close>

definition pres_inv :: "app \<Rightarrow> bool" where
  "pres_inv s \<longleftrightarrow> (probes s \<noteq> [] \<or> img_loading s \<longrightarrow> view (dom s) \<noteq> Idle)
                  \<and> (img_loading s \<longrightarrow> img_onload (dom s) \<noteq> None)"

lemma view_page_writes [simp]:
  "view (show_loading d) = Loading"
  "view (displayError m d) = Failed"
  "view (displayCaption c f d) = view d"
  "view (updateFolderButtons f d) = view d"
  "view (d\<lparr>img_src := a, img_alt := b, img_onload := c, img_onerror := c'\<rparr>) = view d"
  "view (d\<lparr>placeholder_hidden := True, img_hidden := False\<rparr>) = Displayed"
  by (simp_all add: view_def dom_writes updateFolderButtons_def)

lemma view_generate:
  assumes "js_random r1"
  shows "view (dom (generateRandomImage r1 r2 s)) \<in> {Loading, Failed}"
proof (cases "imageManifest s (currentFolder s) = None \<or> imageManifest s (currentFolder s) = Some []")
  case True
  then show ?thesis by (simp add: generate_fail_eq)
next
  case False
  then obtain images where "imageManifest s (currentFolder s) = Some images" and "images \<noteq> []"
    by auto
  then show ?thesis by (simp add: generate_ok_eq [OF assms])
qed

lemma img_onload_page_writes [simp]:
  "img_onload (displayError m d) = img_onload d"
  "img_onload (updateFolderButtons f d) = img_onload d"
  by (simp_all add: dom_writes updateFolderButtons_def)

lemma generate_img_fields:
  "img_src (dom (generateRandomImage r1 r2 s)) = img_src (dom s)"
  "img_onload (dom (generateRandomImage r1 r2 s)) = img_onload (dom s)"
  by (simp_all add: generateRandomImage_def displayImage_def Let_def dom_writes split: option.split)

lemma spec_trans_into_Displayed: "spec_trans p Displayed \<longleftrightarrow> p = Loading"
  by (auto elim: spec_trans_DisplayedE intro: spec_trans.intros)

lemma pres_inv_step:
  assumes "step e s = Some t" and "pres_inv s"
  shows "pres_inv t"
proof (cases e)
  case (ClickGenerate r1 r2)
  then show ?thesis using assms view_generate [of r1 r2 s]
    by (auto simp: pres_inv_def generate_img_fields split: if_splits)
next
  case (TimerFires r1 r2)
  then show ?thesis using assms view_generate [of r1 r2 "s\<lparr>timer_armed := False\<rparr>"]
    by (auto simp: pres_inv_def generate_img_fields split: if_splits)
qed (use assms in \<open>auto simp: pres_inv_def selectFolder_def Let_def probe_onload_def
       probe_onerror_def remove_probe_def img_onload_fire_def img_onerror_fire_def
       split: if_splits option.splits\<close>)

lemma reachable_pres_inv: "reachable s \<Longrightarrow> pres_inv s"
proof (induction rule: reachable.induct)
  case (start d manifest_response captions_response)
  have "probes (page_load d manifest_response captions_response) = []
        \<and> \<not> img_loading (page_load d manifest_response captions_response)"
    by (simp add: page_load_def new_app_def)
  then show ?case by (simp add: pres_inv_def)
next
  case (step s e t)
  then show ?case using pres_inv_step by blast
qed

subsection \<open>The code against the spec's machine\<close>

text \<open>
  C23. Every step of the running page is a step of the spec's presentation machine or
  leaves the presentation unchanged, with a single exception the spec does not have: the
  image element's \<^verbatim>\<open>load\<close> can turn \<open>Failed\<close> into \<open>Displayed\<close>.
\<close>

theorem step_refines_presentation:
  assumes "reachable s" and "step e s = Some t"
  shows "view (dom t) = view (dom s) \<or> spec_trans (view (dom s)) (view (dom t))
         \<or> (e = ImgLoad \<and> view (dom s) = Failed \<and> view (dom t) = Displayed)"
proof (cases e)
  case ImgLoad
  have inv: "pres_inv s" using reachable_pres_inv [OF assms(1)] .
  from assms(2) ImgLoad have loading: "img_loading s"
    and t: "t = img_onload_fire (s\<lparr>img_loading := False\<rparr>)"
    by (simp_all split: if_splits)
  from inv loading have "view (dom s) \<noteq> Idle" by (simp add: pres_inv_def)
  then show ?thesis using ImgLoad t
    by (cases "view (dom s)") (auto simp: img_onload_fire_def spec_trans.intros
        split: option.splits)
next
  case (ClickGenerate r1 r2)
  then show ?thesis using assms(2) view_generate [of r1 r2 s]
    by (auto simp: spec_trans.intros split: if_splits)
next
  case (TimerFires r1 r2)
  then show ?thesis using assms(2) view_generate [of r1 r2 "s\<lparr>timer_armed := False\<rparr>"]
    by (auto simp: spec_trans.intros split: if_splits)
qed (use assms in \<open>auto simp: selectFolder_def Let_def probe_onload_def probe_onerror_def
       remove_probe_def img_onerror_fire_def spec_trans.intros split: if_splits option.splits\<close>)

theorem step_refines_presentation_witness:
  "reachable demo_start \<and> step (ClickGenerate 0 0) demo_start = Some (generateRandomImage 0 0 demo_start)
   \<and> spec_trans (view (dom demo_start)) (view (dom (generateRandomImage 0 0 demo_start)))"
proof -
  have r: "reachable demo_start" by (rule reachable_demo_start)
  have st: "step (ClickGenerate 0 0) demo_start = Some (generateRandomImage 0 0 demo_start)"
    by (simp add: js_random_def demo_run_simps)
  have "view (dom (generateRandomImage 0 0 demo_start)) = Loading"
    "view (dom demo_start) = Idle"
    by (simp_all add: demo_run_simps view_def)
  then show ?thesis using r st step_refines_presentation [OF r st] by (auto intro: spec_trans.intros)
qed

text \<open>
  C24. The exception is reachable from every state in which the image element is still
  loading: a new pick, whether it starts a probe (\<open>Loading\<close>) or fails
  (\<open>Failed\<close>), does not cancel that load, and the image's \<^verbatim>\<open>load\<close> then shows the
  page as \<open>Displayed\<close> with the image handed over before the pick, under the caption the
  new pick wrote.
\<close>

theorem stale_image_load_reveals_old_image:
  assumes "reachable s" and "img_loading s" and "wired s" and "js_random r1" and "js_random r2"
  shows "\<exists>t u. step (ClickGenerate r1 r2) s = Some t \<and> view (dom t) \<in> {Loading, Failed}
             \<and> step ImgLoad t = Some u \<and> view (dom u) = Displayed
             \<and> img_src (dom u) = img_src (dom s) \<and> caption_text (dom u) = caption_text (dom t)"
proof -
  let ?t = "generateRandomImage r1 r2 s"
  have "img_onload (dom s) \<noteq> None"
    using reachable_pres_inv [OF assms(1)] assms(2) by (simp add: pres_inv_def)
  then obtain h where h: "img_onload (dom ?t) = Some h"
    by (auto simp: generate_img_fields)
  have "step (ClickGenerate r1 r2) s = Some ?t" using assms(3-5) by simp
  moreover have "step ImgLoad ?t = Some (img_onload_fire (?t\<lparr>img_loading := False\<rparr>))"
    using assms(2) by simp
  ultimately show ?thesis using h view_generate [OF assms(4), of r2 s]
    by (simp add: img_onload_fire_def generate_img_fields)
qed

theorem stale_image_load_reveals_old_image_witness:
  "\<exists>s. run [ClickGenerate 0 0, ProbeLoad 0, ClickFolder ''Leylah'' 0] demo_start = Some s
       \<and> reachable s \<and> img_loading s \<and> wired s \<and> js_random 0
       \<and> (\<exists>t u. step (ClickGenerate 0 0) s = Some t \<and> view (dom t) = Failed
              \<and> step ImgLoad t = Some u \<and> view (dom u) = Displayed
              \<and> img_src (dom u) = Some ''Lilia/a.jpg''
              \<and> caption_text (dom u) = ''Error loading content'')"
proof -
  have "\<exists>s. run [ClickGenerate 0 0, ProbeLoad 0, ClickFolder ''Leylah'' 0] demo_start = Some s"
    by (simp add: demo_run_simps)
  then obtain s where run: "run [ClickGenerate 0 0, ProbeLoad 0, ClickFolder ''Leylah'' 0] demo_start = Some s"
    by blast
  have r: "reachable s" by (rule reachable_run [OF reachable_demo_start run])
  have facts: "img_loading s" "wired s" "img_src (dom s) = Some ''Lilia/a.jpg''"
    "view (dom (generateRandomImage 0 0 s)) = Failed"
    "caption_text (dom (generateRandomImage 0 0 s)) = ''Error loading content''"
    using run by (auto simp: demo_run_simps view_def)
  have js: "js_random 0" by (simp add: js_random_def)
  have st: "step (ClickGenerate 0 0) s = Some (generateRandomImage 0 0 s)"
    using facts(2) js by simp
  from stale_image_load_reveals_old_image [OF r facts(1,2) js js] st obtain u
    where "step ImgLoad (generateRandomImage 0 0 s) = Some u" "view (dom u) = Displayed"
      "img_src (dom u) = img_src (dom s)"
      "caption_text (dom u) = caption_text (dom (generateRandomImage 0 0 s))"
    by auto
  then show ?thesis using run r facts js st by auto
qed

end
