(* ===== verification/Spec2Isabelle.thy ===== *)
theory Spec2Isabelle
  imports Presentation
begin

text \<open>
  \<^bold>\<open>A verification model of postMaker's image generator (\<^verbatim>\<open>src/script.js\<close>).\<close>

  \<^bold>\<open>The program.\<close> One class, \<^verbatim>\<open>ImageGenerator\<close>, created by the
  \<^verbatim>\<open>DOMContentLoaded\<close> handler. The constructor selects the folder \<^verbatim>\<open>Lilia\<close>
  and calls \<^verbatim>\<open>init\<close>: \<^verbatim>\<open>loadManifest\<close> fetches the folder-to-files manifest
  (any failure is fatal), \<^verbatim>\<open>loadCaptions\<close> fetches the captions (any failure installs
  five built-in captions), \<^verbatim>\<open>setupEventListeners\<close> wires the folder buttons and the
  generate button and schedules a first pick after one second, and
  \<^verbatim>\<open>updateFolderButtons\<close> marks the active button. A folder click runs
  \<^verbatim>\<open>selectFolder\<close>; a pick (\<^verbatim>\<open>generateRandomImage\<close>) draws an image of the
  current folder and a caption with \<^verbatim>\<open>Math.random()\<close>, shows the loading view and
  the caption, and creates a probe image (\<^verbatim>\<open>displayImage\<close>). The probe's
  \<^verbatim>\<open>onload\<close> copies the path into the page's image element, whose own
  \<^verbatim>\<open>onload\<close>/\<^verbatim>\<open>onerror\<close> reveal it or report an error; the probe's
  \<^verbatim>\<open>onerror\<close> reports that the image was not found (\<^verbatim>\<open>displayError\<close>).

  \<^bold>\<open>Theories and what they model.\<close>
  \<^item> \<open>Prelude\<close>: the model's type names (\<open>folder\<close>, \<open>manifest\<close>) and the
    JavaScript idioms of the class: \<open>js_random\<close> (the range of
    \<^verbatim>\<open>Math.random()\<close>), \<open>js_floor_index\<close> (\<^verbatim>\<open>Math.floor(r * n)\<close>),
    \<open>js_get\<close> (\<^verbatim>\<open>xs[i]\<close>, \<^verbatim>\<open>undefined\<close> past the end), \<open>js_str\<close> and
    \<open>js_text\<close> (an \<^verbatim>\<open>undefined\<close> value in a template string and in
    \<^verbatim>\<open>textContent\<close>), \<open>http_ok\<close> (\<^verbatim>\<open>response.ok\<close>). Lemmas: the random
    index is in range, and index \<open>i\<close> is drawn exactly for \<open>r\<close> in
    \<open>[i/n, (i+1)/n)\<close>.
  \<^item> \<open>Dom\<close>: record \<open>dom\<close>, the page elements the class writes, and the methods that
    only write the page: \<open>displayError\<close>, \<open>displayCaption\<close>,
    \<open>updateFolderButtons\<close>, \<open>show_loading\<close> (lines 150--157 of
    \<^verbatim>\<open>displayImage\<close>).
  \<^item> \<open>Generator\<close>: record \<open>generator\<close> (the three fields of the class) and its
    extension \<open>app\<close> with the page, the pending probes (numbered in creation order),
    whether the image element is loading, whether the listeners are wired and whether the
    timer is pending. Operations \<open>new_app\<close> (constructor), \<open>selectFolder\<close>,
    \<open>generateRandomImage\<close>, \<open>displayImage\<close>, and the callbacks
    \<open>probe_onload\<close>, \<open>probe_onerror\<close>, \<open>img_onload_fire\<close>,
    \<open>img_onerror_fire\<close>. The spec's selector contract is \<open>pick_allowed\<close>;
    \<open>pick_outcome\<close> reads off what a pick visibly did. Claims C1--C7 and C26.
  \<^item> \<open>Loader\<close>: \<open>loadManifest\<close> (its thrown errors as \<open>Inl\<close> of
    \<open>load_error\<close>), \<open>loadCaptions\<close>, \<open>setupEventListeners\<close>, \<open>init\<close> and
    \<open>page_load\<close>; each \<^verbatim>\<open>fetch\<close> is an input of type \<open>fetch_result\<close>.
    Claims C8--C12.
  \<^item> \<open>Events\<close>: the browser's event loop after start-up. \<open>step\<close> runs one event
    (folder click, generate click, the timer, \<^verbatim>\<open>load\<close>/\<^verbatim>\<open>error\<close> of any pending
    probe in any order, \<^verbatim>\<open>load\<close>/\<^verbatim>\<open>error\<close> of the image element) and is
    \<open>None\<close> for an event that cannot occur; \<open>run\<close> runs a list of events;
    \<open>reachable\<close> is the inductive set of states reachable from \<open>page_load\<close> on a page
    satisfying \<open>initial_page\<close>. The invariant \<open>app_inv\<close> (paths from the manifest,
    fresh probe numbers, buttons following the current folder, a known current folder) is
    proved per operation, lifted to \<open>step\<close> by case analysis on the event and to
    reachable states by rule induction. Claims C13--C20 and C27.
  \<^item> \<open>Presentation\<close>: the spec's presentation machine (\<open>Idle\<close>, \<open>Loading\<close>,
    \<open>Displayed\<close>, \<open>Failed\<close>) as the datatype \<open>presentation\<close>, the abstraction
    \<open>view\<close> from the page to it, and the spec's transitions \<open>spec_trans\<close>. Claims
    C23 and C24.
  \<^item> This theory: the spec's end-to-end example and the properties that cross
    components. Claims C21, C22 and C25.

  \<^bold>\<open>What the claims show.\<close> A pick draws from the manifest and the captions and
  implements the spec's selector contract in both directions (C1--C3); the empty-folder
  error (C2); random folder selection is uniform over its three candidates and direct
  selection is unchecked and idempotent (C4--C6); caption and manifest failures are
  handled as the spec says, except that the default folder survives a failed start-up
  and an empty caption list is accepted (C7--C12, C25); no path outside the manifest is
  ever loaded, at most one button is active, the data is read-only (C13, C15--C17, C19);
  when the network answers every pending probe in creation order, the page ends showing
  the latest pick's image with nothing pending (C20); overlapping picks are not ordered,
  and the image's \<^verbatim>\<open>alt\<close> text names the folder selected when the probe loads, not
  the image's folder (C14, C18); a start-up reported as failed keeps running (C22); the
  page follows the spec's presentation machine except that the image element's
  \<^verbatim>\<open>load\<close> can turn \<open>Failed\<close> into \<open>Displayed\<close> (C23), and from every
  state with a loading image a new pick, failed or not, is followed by that stale load
  revealing the old image under the new pick's caption (C24); the two random draws of a
  pick are uniform and independent (C26); folder clicks commute with probe errors but not
  with probe loads (C27).

  \<^bold>\<open>Randomness and bounds.\<close> Every \<^verbatim>\<open>Math.random()\<close> is an input, a real
  \<open>r\<close> with \<open>0 \<le> r < 1\<close>; events carry the values their handler draws and are
  disabled otherwise. Indices are computed exactly on reals: for \<open>r < 1\<close> the
  floating-point product \<open>r * n\<close> cannot round up to \<open>n\<close>, so no index is lost.
  Uniformity is stated as the exact interval of inputs that yields each outcome. No loop
  of the program needs fuel: the only iteration is over the page's buttons (a
  \<open>map\<close>) and over event sequences (structural recursion in \<open>run\<close>).

  \<^bold>\<open>Not modelled.\<close> Console output (it changes no state); the HTML and CSS (the
  initial page is a parameter, constrained only by \<open>initial_page\<close>); the network and
  the browser's image decoder (their outcomes are inputs); JSON values of other shapes
  than the spec's (a manifest entry that is not an array, a \<^verbatim>\<open>captions\<close> field that
  is not an array); property lookups that hit \<^verbatim>\<open>Object.prototype\<close> (a folder named
  \<^verbatim>\<open>constructor\<close>).

  \<^bold>\<open>Plan.\<close> Done: every method of the class, start-up, the event loop and the
  spec's presentation machine. Next: the remaining commutations of the event loop (which
  pairs of events are independent); inversion rules for \<open>reachable\<close> and \<open>step\<close> used in the invariant proofs; and the
  JSON shapes the spec excludes (a manifest entry that is not an array).
\<close>

text \<open>The spec's example: its manifest, the caption list \<open>[Hi]\<close>, and the example page.\<close>

definition example_start :: app where
  "example_start = page_load demo_page (Response 200 (Some demo_manifest))
                     (Response 200 (Some (Some [''Hi''])))"

definition empty_captions_start :: app where
  "empty_captions_start = page_load demo_page (Response 200 (Some demo_manifest))
                            (Response 200 (Some (Some [])))"

lemmas example_simps = example_start_def demo_defs app_simps js_str_def js_text_def
  js_get_eq_nth http_ok_def button_folders_def updateFolderButtons_def init_failed_message_def

section \<open>Properties across components\<close>

text \<open>
  C21. The spec's end-to-end example, for every outcome of \<^verbatim>\<open>Math.random()\<close>: with
  the manifest \<open>{Lilia: [a.jpg, b.jpg], Leylah: [], Roxy: [c.jpg]}\<close> and captions
  \<open>[Hi]\<close>, clicking \<^verbatim>\<open>Leylah\<close> and then generate reports the empty folder and
  starts no probe; clicking \<^verbatim>\<open>Roxy\<close> and then generate starts loading exactly
  \<^verbatim>\<open>Roxy/c.jpg\<close> with the caption \<^verbatim>\<open>Hi\<close>.
\<close>

theorem spec_example_end_to_end:
  assumes "js_random r0" and "js_random r1" and "js_random r2"
  shows "(\<exists>t. run [ClickFolder ''Leylah'' r0, ClickGenerate r1 r2] example_start = Some t
            \<and> probes t = [] \<and> placeholder (dom t) = Placeholder_Error ''No images in Leylah folder'')
         \<and> (\<exists>t. run [ClickFolder ''Roxy'' r0, ClickGenerate r1 r2] example_start = Some t
            \<and> probes t = [(0, ''Roxy/c.jpg'')] \<and> caption_text (dom t) = ''Hi''
            \<and> source_text (dom t) = ''Source: Roxy folder'')"
  using assms by (simp add: example_simps)

theorem spec_example_end_to_end_witness:
  "js_random 0 \<and> js_random (1/2) \<and> js_random (99/100)
   \<and> (\<exists>t. run [ClickFolder ''Roxy'' 0, ClickGenerate (1/2) (99/100)] example_start = Some t
        \<and> probes t = [(0, ''Roxy/c.jpg'')] \<and> caption_text (dom t) = ''Hi'')"
proof -
  have h: "js_random 0" "js_random (1/2)" "js_random (99/100)" by (simp_all add: js_random_def)
  show ?thesis using h spec_example_end_to_end [OF h] by blast
qed

text \<open>
  C22. The page that reports a failed start-up keeps picking: with a manifest that has
  images for \<^verbatim>\<open>Lilia\<close> but no \<^verbatim>\<open>Leylah\<close> entry, start-up shows
  \<open>Failed to initialize. Check console.\<close>, and the scheduled first pick still fires,
  replaces the message with the loading view and starts loading a \<^verbatim>\<open>Lilia\<close> image.
\<close>

theorem failed_init_still_picks:
  assumes "loadManifest manifest_response (new_app d) = Inr s1"
    and "imageManifest s1 ''Lilia'' = Some images" and "images \<noteq> []"
    and "imageManifest s1 ''Leylah'' = None"
    and "js_random r1" and "js_random r2"
  shows "placeholder (dom (page_load d manifest_response captions_response))
           = Placeholder_Error ''Failed to initialize. Check console.''
         \<and> (\<exists>t. step (TimerFires r1 r2) (page_load d manifest_response captions_response) = Some t
              \<and> placeholder (dom t) = Placeholder_Loading
              \<and> map snd (probes t) = [''Lilia/'' @ images ! js_floor_index r1 (length images)])"
proof -
  obtain m where s1: "s1 = (new_app d)\<lparr>imageManifest := m\<rparr>"
    using assms(1) by (auto simp: loadManifest_Inr)
  let ?s = "page_load d manifest_response captions_response"
  have s: "?s = (setupEventListeners (loadCaptions captions_response s1))
             \<lparr>dom := displayError init_failed_message (updateFolderButtons ''Lilia'' (dom s1))\<rparr>"
    using assms(4) unfolding page_load_def init_ok_eq [OF assms(1)]
    by (simp add: s1 new_app_def Let_def setupEventListeners_def)
  have fields: "currentFolder ?s = ''Lilia''" "imageManifest ?s ''Lilia'' = Some images"
    "timer_armed ?s" "probes ?s = []"
    using assms(2) by (simp_all add: s s1 new_app_def setupEventListeners_def)
  have "currentFolder (?s\<lparr>timer_armed := False\<rparr>) = ''Lilia''"
    "imageManifest (?s\<lparr>timer_armed := False\<rparr>) (currentFolder (?s\<lparr>timer_armed := False\<rparr>))
       = Some images"
    using fields by simp_all
  then have "generateRandomImage r1 r2 (?s\<lparr>timer_armed := False\<rparr>)
      = (let path = ''Lilia'' @ ''/'' @ images ! js_floor_index r1 (length images);
             caption = js_get (captions ?s) (js_floor_index r2 (length (captions ?s)))
         in ?s\<lparr>timer_armed := False,
              dom := displayCaption caption ''Lilia'' (show_loading (dom ?s)),
              probes := probes ?s @ [(next_probe ?s, path)], next_probe := Suc (next_probe ?s)\<rparr>)"
    using generate_ok_eq [OF assms(5) _ assms(3)] by simp
  then show ?thesis using fields assms(5,6)
    by (simp add: s displayError_def init_failed_message_def dom_writes)
qed

theorem failed_init_still_picks_witness:
  "loadManifest (Response 200 (Some [''Lilia'' \<mapsto> [''a.jpg'']])) (new_app demo_page)
     = Inr ((new_app demo_page)\<lparr>imageManifest := [''Lilia'' \<mapsto> [''a.jpg'']]\<rparr>)
   \<and> placeholder (dom (page_load demo_page (Response 200 (Some [''Lilia'' \<mapsto> [''a.jpg'']]))
        NetworkError)) = Placeholder_Error ''Failed to initialize. Check console.''
   \<and> (\<exists>t. step (TimerFires 0 0) (page_load demo_page (Response 200 (Some [''Lilia'' \<mapsto> [''a.jpg'']]))
          NetworkError) = Some t \<and> placeholder (dom t) = Placeholder_Loading)"
proof -
  let ?s1 = "(new_app demo_page)\<lparr>imageManifest := [''Lilia'' \<mapsto> [''a.jpg'']]\<rparr>"
  have h: "loadManifest (Response 200 (Some [''Lilia'' \<mapsto> [''a.jpg'']])) (new_app demo_page) = Inr ?s1"
    "imageManifest ?s1 ''Lilia'' = Some [''a.jpg'']" "[''a.jpg''] \<noteq> []"
    "imageManifest ?s1 ''Leylah'' = None" "js_random 0" "js_random 0"
    by (simp_all add: loadManifest_def http_ok_def js_random_def)
  show ?thesis using h(1) failed_init_still_picks [OF h, of NetworkError] by blast
qed

text \<open>
  C25. An empty caption list served with status 200 passes start-up as a success (no
  error shown, page wired), and the scheduled first pick then shows the loading view with
  an empty caption line, whatever \<^verbatim>\<open>Math.random()\<close> returns.
\<close>

theorem empty_captions_end_to_end:
  assumes "js_random r1" and "js_random r2"
  shows "wired empty_captions_start \<and> placeholder (dom empty_captions_start) = Placeholder_Initial
         \<and> (\<exists>t. run [TimerFires r1 r2] empty_captions_start = Some t
              \<and> caption_text (dom t) = [] \<and> placeholder (dom t) = Placeholder_Loading
              \<and> length (probes t) = 1)"
  using assms by (simp add: empty_captions_start_def example_simps)

theorem empty_captions_end_to_end_witness:
  "js_random (1/3) \<and> js_random 0
   \<and> (\<exists>t. run [TimerFires (1/3) 0] empty_captions_start = Some t \<and> caption_text (dom t) = [])"
proof -
  have h: "js_random (1/3)" "js_random 0" by (simp_all add: js_random_def)
  show ?thesis using h empty_captions_end_to_end [OF h] by blast
qed

end
